theory Spec2Isabelle
  imports Complex_Main "HOL-Library.Word"
begin

section \<open>The sample-bank generator \<open>generate-samples.py\<close>\<close>

text \<open>
  The program converts MIDI notes to frequencies and decibel levels to amplitudes,
  synthesises a sine tone as interleaved 16-bit stereo samples and writes one WAV file per
  (note, velocity tier, sample rate).

  Conventions of the embedding.
  \<^item> A finite Python \<open>float\<close> is a \<^typ>\<open>real\<close>. The value of a sample, a time or a
    frequency is kept exact. Rounding to 53 bits is modelled where it decides how many
    samples there are: \<open>int()\<close> reads the double the product \<open>sample_rate * duration\<close> was
    rounded to.
  \<^item> A value that leaves the range of a double is modelled as Python has it: the
    conversion of an \<open>int\<close>, the operator \<open>**\<close> and \<open>int()\<close> of an infinite product
    raise, a product of two floats is the infinity.
  \<^item> A Python \<open>int\<close> is an \<^typ>\<open>int\<close>, a NumPy \<open>int16\<close> is a \<^typ>\<open>16 word\<close> read with
    \<^const>\<open>sint\<close>.
  \<^item> A raised exception is the left component of a sum.
\<close>

subsection \<open>Floats and errors\<close>

datatype error = ValueError | OverflowError | KeyError | IndexError | WaveError

text \<open>
  Round-to-nearest sends every real of magnitude at least \<open>2^1024 - 2^970\<close> (half an ulp
  above the largest double) to infinity.
\<close>

definition float_limit :: real where
  "float_limit = 2 ^ 1024 - 2 ^ 970"

definition in_float_range :: "real \<Rightarrow> bool" where
  "in_float_range r = (\<bar>r\<bar> < float_limit)"

text \<open>
  An \<open>int\<close> operand of a float operation is converted first; Python raises
  \<open>OverflowError: int too large to convert to float\<close> outside the range. The conversion
  is exact up to \<open>2^53\<close> in magnitude, which holds every note and every sample rate in reach;
  the rounding of a larger \<open>int\<close> is not modelled.
\<close>

definition float_of_int :: "int \<Rightarrow> error + real" where
  "float_of_int k =
     (if in_float_range (real_of_int k) then Inr (real_of_int k) else Inl OverflowError)"

text \<open>
  \<open>x ** y\<close> for a positive base \<open>x\<close> (the program uses 2 and 10): Python raises
  \<open>OverflowError: (34, 'Numerical result out of range')\<close> when the result is infinite.
\<close>

definition float_pow :: "real \<Rightarrow> real \<Rightarrow> error + real" where
  "float_pow x y = (if in_float_range (x powr y) then Inr (x powr y) else Inl OverflowError)"

text \<open>\<open>int(x)\<close> of a float truncates towards zero.\<close>

definition trunc :: "real \<Rightarrow> int" where
  "trunc x = (if 0 \<le> x then \<lfloor>x\<rfloor> else \<lceil>x\<rceil>)"

text \<open>
  The result of a float multiplication, which never raises: the product, or the infinity
  when the product of two positive floats leaves the range.
\<close>

datatype pyfloat = Finite real | PosInf

text \<open>
  The double nearest to a real inside the range, ties to the even mantissa: the integer
  multiple of the unit in the last place, which is \<open>2^(e - 52)\<close> for a magnitude in
  \<open>[2^e, 2^(e + 1))\<close> and \<open>2^(-1074)\<close> below \<open>2^(-1022)\<close>.
\<close>

definition round_half_even :: "real \<Rightarrow> int" where
  "round_half_even y =
     (let f = \<lfloor>y\<rfloor>; r = y - of_int f
      in if r < 1 / 2 then f else if 1 / 2 < r then f + 1 else if even f then f else f + 1)"

definition float_round :: "real \<Rightarrow> real" where
  "float_round x =
     (if x = 0 then 0
      else
        let e = max \<lfloor>log 2 \<bar>x\<bar>\<rfloor> (- 1022);
            ulp = 2 powr (of_int e - 52)
        in of_int (round_half_even (x / ulp)) * ulp)"

subsection \<open>\<open>midi_to_freq\<close> and \<open>db_to_amp\<close>\<close>

text \<open>
  \<^verbatim>\<open>return 440.0 * (2 ** ((midi_note - 69) / 12.0))\<close>

  The power raises outside the range; the product with 440.0 does not, it is \<open>inf\<close> there.
\<close>

definition midi_to_freq :: "int \<Rightarrow> error + pyfloat" where
  "midi_to_freq midi_note =
     (case float_of_int (midi_note - 69) of
        Inl e \<Rightarrow> Inl e
      | Inr k \<Rightarrow>
          (case float_pow 2 (k / 12) of
             Inl e \<Rightarrow> Inl e
           | Inr p \<Rightarrow> Inr (if in_float_range (440 * p) then Finite (440 * p) else PosInf)))"

text \<open>\<^verbatim>\<open>return 10 ** (db / 20.0)\<close>\<close>

definition db_to_amp :: "real \<Rightarrow> error + real" where
  "db_to_amp db =
     (case float_pow 10 (db / 20) of
        Inl e \<Rightarrow> Inl e
      | Inr p \<Rightarrow> Inr p)"

subsection \<open>\<open>generate_sine_wave\<close>\<close>

text \<open>
  \<open>np.linspace(start, stop, num, endpoint)\<close>: a negative \<open>num\<close> raises \<open>ValueError\<close>;
  otherwise the indices \<open>0, \<dots>, num - 1\<close> are scaled by the step \<open>(stop - start) / dv\<close>, where
  \<open>dv\<close> is \<open>num - 1\<close> with the end point and \<open>num\<close> without it, and shifted by \<open>start\<close>;
  with the end point the last element is set to \<open>stop\<close>.
\<close>

definition np_linspace :: "real \<Rightarrow> real \<Rightarrow> int \<Rightarrow> bool \<Rightarrow> error + real list" where
  "np_linspace start stop num endpoint =
     (if num < 0 then Inl ValueError
      else
        let dv = (if endpoint then num - 1 else num);
            delta = stop - start;
            y0 = map real [0..<nat num];
            y1 = (if 0 < dv then
                    (let step = delta / real_of_int dv in
                     if step = 0 then map (\<lambda>v. v / real_of_int dv * delta) y0
                     else map (\<lambda>v. v * step) y0)
                  else map (\<lambda>v. v * delta) y0);
            y2 = map (\<lambda>v. v + start) y1
        in Inr (if endpoint \<and> 1 < num then y2[nat num - 1 := stop] else y2))"

text \<open>
  \<^verbatim>\<open>t = np.linspace(0, duration, int(sample_rate * duration), endpoint=False)\<close>

  The integer \<open>sample_rate\<close> is converted to a float for the product. \<open>int()\<close> truncates the
  double the product is rounded to (\<open>10 * 0.3\<close> is \<open>3.0\<close>, though the double \<open>0.3\<close> is below
  three tenths); a product outside the range of doubles is infinite and \<open>int()\<close> of it raises
  \<open>OverflowError\<close>.
\<close>

definition sample_times :: "int \<Rightarrow> real \<Rightarrow> error + real list" where
  "sample_times sample_rate duration =
     (case float_of_int sample_rate of
        Inl e \<Rightarrow> Inl e
      | Inr sr \<Rightarrow>
          if in_float_range (sr * duration)
          then np_linspace 0 duration (trunc (float_round (sr * duration))) False
          else Inl OverflowError)"

text \<open>\<^verbatim>\<open>sine_wave = amplitude * np.sin(2 * np.pi * frequency * t)\<close>\<close>

definition sine_wave :: "real \<Rightarrow> real \<Rightarrow> real list \<Rightarrow> real list" where
  "sine_wave amplitude frequency t = map (\<lambda>x. amplitude * sin (2 * pi * frequency * x)) t"

text \<open>
  \<open>np.int16\<close> of a float: the C conversion, which truncates towards zero when the truncated
  value is an \<open>int16\<close>. Outside that range, and for NaN, C leaves the result to the platform:
  the model takes the platform's conversion as the parameter \<open>native\<close> and never clips or
  saturates itself. \<open>wrap_cast\<close> is the usual platform: two's-complement wrap-around, and 0
  for NaN.
\<close>

type_synonym int16 = "16 word"

record platform =
  cast_range :: "real \<Rightarrow> int16"
  cast_nan :: int16

definition np_int16 :: "platform \<Rightarrow> real \<Rightarrow> int16" where
  "np_int16 native x =
     (if - 32769 < x \<and> x < 32768 then word_of_int (trunc x) else cast_range native x)"

definition wrap_cast :: platform where
  "wrap_cast = \<lparr>cast_range = (\<lambda>x. word_of_int (trunc x)), cast_nan = 0\<rparr>"

text \<open>\<^verbatim>\<open>sine_wave_int = np.int16(sine_wave * 32767)\<close>\<close>

definition sine_wave_int :: "platform \<Rightarrow> real list \<Rightarrow> int16 list" where
  "sine_wave_int native w = map (\<lambda>x. np_int16 native (x * 32767)) w"

text \<open>\<^verbatim>\<open>stereo_wave = np.column_stack((sine_wave_int, sine_wave_int)).flatten()\<close>\<close>

definition stereo_wave :: "int16 list \<Rightarrow> int16 list" where
  "stereo_wave xs = concat (map (\<lambda>v. [v, v]) xs)"

definition generate_sine_wave ::
  "platform \<Rightarrow> int \<Rightarrow> real \<Rightarrow> real \<Rightarrow> real \<Rightarrow> error + int16 list" where
  "generate_sine_wave native sample_rate duration frequency amplitude =
     (case sample_times sample_rate duration of
        Inl e \<Rightarrow> Inl e
      | Inr t \<Rightarrow> Inr (stereo_wave (sine_wave_int native (sine_wave amplitude frequency t))))"

text \<open>
  The same function at the frequency \<open>inf\<close>: \<open>2 * np.pi * frequency * t\<close> is NaN at \<open>t = 0\<close> and
  infinite elsewhere, its sine is NaN, and so is every sample; \<open>np.int16\<close> makes of each what
  the platform makes of NaN.
\<close>

definition generate_sine_wave_inf :: "platform \<Rightarrow> int \<Rightarrow> real \<Rightarrow> error + int16 list" where
  "generate_sine_wave_inf native sample_rate duration =
     (case sample_times sample_rate duration of
        Inl e \<Rightarrow> Inl e
      | Inr t \<Rightarrow> Inr (stereo_wave (map (\<lambda>x. cast_nan native) t)))"

subsection \<open>\<open>save_wav_file\<close>\<close>

text \<open>
  A file is what the program hands to the \<open>wave\<close> module: the three parameters it sets and
  the frame bytes it writes. The module derives the RIFF header from exactly these. A path
  is the pair of the output directory and the file name joined by \<open>os.path.join\<close> (the file
  names of the program contain no separator). Failures of the operating system are not
  modelled; the \<open>wave\<close> module itself rejects a frame rate that is not positive.
\<close>

type_synonym byte = "8 word"

record wav_file =
  nchannels :: nat
  sampwidth :: nat
  framerate :: int
  frames :: "byte list"

type_synonym path = "string \<times> string"

type_synonym files = "path \<rightharpoonup> wav_file"

text \<open>\<open>struct.pack('<h', val)\<close>: the low byte, then the high byte.\<close>

definition struct_pack_h :: "int16 \<Rightarrow> byte list" where
  "struct_pack_h val = [ucast val, ucast (drop_bit 8 val)]"

definition save_wav_file :: "path \<Rightarrow> int \<Rightarrow> int16 list \<Rightarrow> files \<Rightarrow> error + files" where
  "save_wav_file filename sample_rate data fs =
     (if sample_rate \<le> 0 then Inl WaveError
      else Inr (fs(filename \<mapsto>
        \<lparr>nchannels = 2, sampwidth = 2, framerate = sample_rate,
         frames = concat (map struct_pack_h data)\<rparr>)))"

subsection \<open>\<open>get_default_output_dir\<close>\<close>

definition backslash :: char where
  "backslash = CHR 0x5C"

text \<open>
  \<open>os.path.expanduser\<close> of the POSIX path module, for the current user: \<open>home\<close> is the home
  directory found in the environment or the password database, \<open>None\<close> when there is none
  (the path then stays as it is). The form \<open>~user\<close> needs the password database and is left
  as it is here; the program does not use it.
\<close>

definition rstrip_slash :: "string \<Rightarrow> string" where
  "rstrip_slash s = rev (dropWhile (\<lambda>c. c = CHR ''/'') (rev s))"

definition expanduser :: "string option \<Rightarrow> string \<Rightarrow> string" where
  "expanduser home p =
     (if take 1 p \<noteq> ''~'' then p
      else
        let rest = dropWhile (\<lambda>c. c \<noteq> CHR ''/'') (drop 1 p);
            i = length p - length rest
        in if i = 1 then
             (case home of
                None \<Rightarrow> p
              | Some userhome \<Rightarrow>
                  (let r = rstrip_slash userhome @ rest in if r = [] then ''/'' else r))
           else p)"

text \<open>
  The Windows branch returns the raw string \<^verbatim>\<open>r'C:\\SoundBanks\\IthacaPlayer\\instrument'\<close>,
  whose backslashes are doubled. \<open>system\<close> is the value of \<open>platform.system()\<close>.
\<close>

definition get_default_output_dir :: "string \<Rightarrow> string option \<Rightarrow> string" where
  "get_default_output_dir system home =
     (if system = ''Windows''
      then ''C:'' @ [backslash, backslash] @ ''SoundBanks'' @ [backslash, backslash]
           @ ''IthacaPlayer'' @ [backslash, backslash] @ ''instrument''
      else expanduser home ''~/Soundbank/IthacaPlayer/instrument'')"

subsection \<open>File names\<close>

definition digit_char :: "nat \<Rightarrow> char" where
  "digit_char d = ''0123456789'' ! d"

text \<open>\<open>str\<close> of a non-negative integer: its decimal digits.\<close>

fun str_nat :: "nat \<Rightarrow> string" where
  "str_nat n = (if n < 10 then [digit_char n] else str_nat (n div 10) @ [digit_char (n mod 10)])"

declare str_nat.simps [simp del]

text \<open>The format \<open>03d\<close>: sign, then zeros up to a total width of three, then the digits.\<close>

definition format_03d :: "int \<Rightarrow> string" where
  "format_03d i =
     (let digits = str_nat (nat \<bar>i\<bar>);
          sign = (if i < 0 then ''-'' else [])
      in sign @ replicate (3 - (length sign + length digits)) CHR ''0'' @ digits)"

text \<open>\<^verbatim>\<open>rate_tags = {44100: '44', 48000: '48'}\<close>\<close>

definition rate_tags :: "int \<rightharpoonup> string" where
  "rate_tags = [44100 \<mapsto> ''44'', 48000 \<mapsto> ''48'']"

text \<open>\<^verbatim>\<open>note_str = f'm{midi_note:03d}'\<close>\<close>

definition note_str_of :: "int \<Rightarrow> string" where
  "note_str_of midi_note = ''m'' @ format_03d midi_note"

text \<open>\<^verbatim>\<open>filename = f'{note_str}-vel{vel}-f{rate_tags[sample_rate]}.wav'\<close>\<close>

definition filename_of :: "string \<Rightarrow> nat \<Rightarrow> string \<Rightarrow> string" where
  "filename_of note_str vel tag = note_str @ ''-vel'' @ str_nat vel @ ''-f'' @ tag @ ''.wav''"

subsection \<open>\<open>main\<close>\<close>

text \<open>A \<open>for\<close> loop over a list whose body may raise: the first exception ends the run.\<close>

fun for_loop :: "('a \<Rightarrow> 's \<Rightarrow> error + 's) \<Rightarrow> 'a list \<Rightarrow> 's \<Rightarrow> error + 's" where
  "for_loop body [] s = Inr s"
| "for_loop body (x # xs) s =
     (case body x s of
        Inl e \<Rightarrow> Inl e
      | Inr s' \<Rightarrow> for_loop body xs s')"

text \<open>
  The call \<open>generate_sine_wave(sample_rate, duration, freq, amp)\<close> of the driver, whose
  frequency is the float \<open>midi_to_freq\<close> returned.
\<close>

definition generate_sine_wave_call ::
  "platform \<Rightarrow> int \<Rightarrow> real \<Rightarrow> pyfloat \<Rightarrow> real \<Rightarrow> error + int16 list" where
  "generate_sine_wave_call native sample_rate duration freq amp =
     (case freq of
        Finite frequency \<Rightarrow> generate_sine_wave native sample_rate duration frequency amp
      | PosInf \<Rightarrow> generate_sine_wave_inf native sample_rate duration)"

text \<open>The body of the loop over the sample rates.\<close>

definition rate_body ::
  "platform \<Rightarrow> string \<Rightarrow> real \<Rightarrow> string \<Rightarrow> nat \<Rightarrow> pyfloat \<Rightarrow> real \<Rightarrow> int \<Rightarrow> files
     \<Rightarrow> error + files" where
  "rate_body native output_dir duration note_str vel freq amp sample_rate fs =
     (case generate_sine_wave_call native sample_rate duration freq amp of
        Inl e \<Rightarrow> Inl e
      | Inr data \<Rightarrow>
          (case rate_tags sample_rate of
             None \<Rightarrow> Inl KeyError
           | Some tag \<Rightarrow>
               (let filename = filename_of note_str vel tag;
                    filepath = (output_dir, filename)
                in save_wav_file filepath sample_rate data fs)))"

text \<open>The body of the loop over the velocities.\<close>

definition vel_body ::
  "platform \<Rightarrow> string \<Rightarrow> int list \<Rightarrow> real \<Rightarrow> real list \<Rightarrow> string \<Rightarrow> pyfloat \<Rightarrow> nat \<Rightarrow> files
     \<Rightarrow> error + files" where
  "vel_body native output_dir sample_rates duration db_levels note_str freq vel fs =
     (if vel < length db_levels then
        (let db = db_levels ! vel in
         case db_to_amp db of
           Inl e \<Rightarrow> Inl e
         | Inr amp \<Rightarrow>
             for_loop (rate_body native output_dir duration note_str vel freq amp)
               sample_rates fs)
      else Inl IndexError)"

text \<open>The body of the loop over the notes.\<close>

definition note_body ::
  "platform \<Rightarrow> string \<Rightarrow> int list \<Rightarrow> real \<Rightarrow> real list \<Rightarrow> int \<Rightarrow> files
     \<Rightarrow> error + files" where
  "note_body native output_dir sample_rates duration db_levels midi_note fs =
     (case midi_to_freq midi_note of
        Inl e \<Rightarrow> Inl e
      | Inr freq \<Rightarrow>
          (let note_str = note_str_of midi_note in
           for_loop (vel_body native output_dir sample_rates duration db_levels note_str freq)
             [0..<8] fs))"

text \<open>
  \<^verbatim>\<open>output_dir = args.output_dir if args.output_dir else get_default_output_dir()\<close>

  The flag is \<open>None\<close> when absent; an empty string is false in Python too.
\<close>

definition output_dir_of :: "string option \<Rightarrow> string \<Rightarrow> string option \<Rightarrow> string" where
  "output_dir_of args_output_dir system home =
     (case args_output_dir of
        None \<Rightarrow> get_default_output_dir system home
      | Some d \<Rightarrow> if d \<noteq> [] then d else get_default_output_dir system home)"

text \<open>
  The run: the files of the output directory before, and after (or the exception).
  The progress lines it prints are not part of the model.
\<close>

definition main ::
  "platform \<Rightarrow> string option \<Rightarrow> string \<Rightarrow> string option \<Rightarrow> files \<Rightarrow> error + files" where
  "main native args_output_dir system home fs =
     (let output_dir = output_dir_of args_output_dir system home;
          sample_rates = [44100, 48000];
          duration = 5
      in case np_linspace (- 30) (- 6) 8 True of
           Inl e \<Rightarrow> Inl e
         | Inr db_levels \<Rightarrow>
             for_loop (note_body native output_dir sample_rates duration db_levels)
               [21..108] fs)"

subsection \<open>The contracts of the two conversions\<close>

text \<open>The contracts of the specification, in its own words.\<close>

definition frequency_spec :: "int \<Rightarrow> real" where
  "frequency_spec n = 440 * 2 powr (real_of_int (n - 69) / 12)"

definition amplitude_spec :: "real \<Rightarrow> real" where
  "amplitude_spec db = 10 powr (db / 20)"

subsection \<open>The bank of files\<close>

text \<open>
  The file name the loops give to the entry (note, velocity, sample rate): \<open>note_str\<close> and
  \<open>filename\<close> above, with the tag looked up in \<open>rate_tags\<close>.
\<close>

definition file_name :: "int \<Rightarrow> nat \<Rightarrow> int \<Rightarrow> string" where
  "file_name midi_note vel sample_rate =
     (case rate_tags sample_rate of
        None \<Rightarrow> []
      | Some tag \<Rightarrow> filename_of (note_str_of midi_note) vel tag)"

text \<open>
  The entries the three loops enumerate: \<open>range(21, 109)\<close>, \<open>range(8)\<close> and the two sample
  rates.
\<close>

definition bank :: "(int \<times> nat \<times> int) set" where
  "bank = {21..108} \<times> {0..<8} \<times> {44100, 48000}"

text \<open>The same entries in the order of the loops: notes, then velocities, then rates.\<close>

definition bank_list :: "(int \<times> nat \<times> int) list" where
  "bank_list =
     concat (map (\<lambda>n. concat (map (\<lambda>v. map (\<lambda>r. (n, v, r)) [44100, 48000]) [0..<8])) [21..108])"

text \<open>The level of a velocity, \<open>np.linspace(-30, -6, 8)[vel]\<close>: eight steps of \<open>24/7\<close> dB.\<close>

definition db_level :: "nat \<Rightarrow> real" where
  "db_level vel = - 30 + real vel * (24 / 7)"

text \<open>
  The samples of an entry: what \<open>generate_sine_wave\<close> returns for its rate, its frequency and
  its amplitude and the five seconds of the run (and nothing if it raised).
\<close>

definition tone :: "platform \<Rightarrow> int \<Rightarrow> nat \<Rightarrow> int \<Rightarrow> int16 list" where
  "tone native midi_note vel sample_rate =
     (case generate_sine_wave native sample_rate 5 (frequency_spec midi_note)
             (amplitude_spec (db_level vel)) of
        Inl e \<Rightarrow> []
      | Inr data \<Rightarrow> data)"

text \<open>The file of an entry: stereo, 16 bits, its rate, its samples packed.\<close>

definition planned_file :: "platform \<Rightarrow> int \<Rightarrow> nat \<Rightarrow> int \<Rightarrow> wav_file" where
  "planned_file native midi_note vel sample_rate =
     \<lparr>nchannels = 2, sampwidth = 2, framerate = sample_rate,
      frames = concat (map struct_pack_h (tone native midi_note vel sample_rate))\<rparr>"

definition entry_path :: "string \<Rightarrow> int \<times> nat \<times> int \<Rightarrow> path" where
  "entry_path output_dir e = (case e of (midi_note, vel, sample_rate) \<Rightarrow>
     (output_dir, file_name midi_note vel sample_rate))"

definition entry_file :: "platform \<Rightarrow> int \<times> nat \<times> int \<Rightarrow> wav_file" where
  "entry_file native e = (case e of (midi_note, vel, sample_rate) \<Rightarrow>
     planned_file native midi_note vel sample_rate)"

text \<open>Writing the file of an entry into the output directory.\<close>

definition write_entry ::
  "platform \<Rightarrow> string \<Rightarrow> int \<times> nat \<times> int \<Rightarrow> files \<Rightarrow> files" where
  "write_entry native output_dir e fs =
     (case e of (midi_note, vel, sample_rate) \<Rightarrow>
        fs((output_dir, file_name midi_note vel sample_rate) \<mapsto>
           planned_file native midi_note vel sample_rate))"

text \<open>
  The components of a path: the pieces between separators that are not empty (Windows
  treats a repeated separator inside a path as one).
\<close>

fun split_on :: "char \<Rightarrow> string \<Rightarrow> string list" where
  "split_on sep [] = [[]]"
| "split_on sep (c # cs) =
     (if c = sep then [] # split_on sep cs
      else (case split_on sep cs of
              [] \<Rightarrow> [[c]]
            | w # ws \<Rightarrow> (c # w) # ws))"

definition path_components :: "char \<Rightarrow> string \<Rightarrow> string list" where
  "path_components sep p = filter (\<lambda>w. w \<noteq> []) (split_on sep p)"

section \<open>Properties\<close>

subsection \<open>The range of doubles\<close>

lemma float_limit_pos: "0 < float_limit"
  by (simp add: float_limit_def)

lemma float_limit_le: "float_limit \<le> 2 ^ 1024"
  by (simp add: float_limit_def)

lemma two_powr_12287: "(2 powr (12287 / 12 :: real)) ^ 12 = 2 ^ 12287"
proof -
  have "(2 powr (12287 / 12 :: real)) ^ 12 = (2 powr (12287 / 12 :: real)) powr (real 12)"
    by (rule powr_realpow [symmetric]) simp
  also have "\<dots> = 2 powr ((12287 / 12) * real 12)"
    by (rule powr_powr)
  also have "\<dots> = 2 powr (real 12287)"
    by simp
  also have "\<dots> = 2 ^ 12287"
    by (rule powr_realpow) simp
  finally show ?thesis .
qed

lemma two_powr_12287_less: "2 powr (12287 / 12 :: real) < float_limit"
proof (rule power_less_imp_less_base [of _ 12])
  have "(2::real) ^ 12287 < (2 ^ 1024 - 2 ^ 970) ^ 12"
    by simp
  then show "(2 powr (12287 / 12 :: real)) ^ 12 < float_limit ^ 12"
    by (simp only: two_powr_12287 float_limit_def)
  show "0 \<le> float_limit"
    using float_limit_pos by simp
qed

lemma two_powr_in_range:
  assumes "k \<le> 12287"
  shows "in_float_range (2 powr (real_of_int k / 12))"
proof -
  have "real_of_int k / 12 \<le> 12287 / 12"
    using assms by simp
  then have "2 powr (real_of_int k / 12) \<le> 2 powr (12287 / 12)"
    by (rule powr_mono) simp
  then have "2 powr (real_of_int k / 12) < float_limit"
    using two_powr_12287_less by (rule order_le_less_trans)
  moreover have "0 \<le> 2 powr (real_of_int k / 12)"
    by simp
  ultimately show ?thesis
    unfolding in_float_range_def by (simp only: abs_of_nonneg)
qed

lemma two_powr_out_of_range:
  assumes "12288 \<le> k"
  shows "\<not> in_float_range (2 powr (real_of_int k / 12))"
proof -
  have "(1024 :: real) \<le> real_of_int k / 12"
    using assms by simp
  then have "2 powr (1024 :: real) \<le> 2 powr (real_of_int k / 12)"
    by (rule powr_mono) simp
  moreover have "2 powr (1024 :: real) = 2 ^ 1024"
    using powr_realpow [of "2::real" 1024] by simp
  ultimately have "float_limit \<le> 2 powr (real_of_int k / 12)"
    using float_limit_le by linarith
  then show ?thesis
    unfolding in_float_range_def by linarith
qed

lemma ten_powr_in_range:
  assumes "e \<le> 308"
  shows "in_float_range (10 powr e)"
proof -
  have "10 powr e \<le> 10 powr (308 :: real)"
    using assms by (rule powr_mono) simp
  moreover have "10 powr (308 :: real) = 10 ^ 308"
    using powr_realpow [of "10::real" 308] by simp
  moreover have "(10 :: real) ^ 308 < float_limit"
    by (simp add: float_limit_def)
  ultimately have "10 powr e < float_limit"
    by linarith
  moreover have "0 \<le> 10 powr e"
    by simp
  ultimately show ?thesis
    unfolding in_float_range_def by (simp only: abs_of_nonneg)
qed

lemma ten_powr_309_out_of_range: "\<not> in_float_range (10 powr (309 :: real))"
proof -
  have "10 powr (309 :: real) = 10 ^ 309"
    using powr_realpow [of "10::real" 309] by simp
  moreover have "float_limit \<le> (10 :: real) ^ 309"
    by (simp add: float_limit_def)
  ultimately show ?thesis
    unfolding in_float_range_def by linarith
qed

lemma small_in_float_range: "\<bar>r\<bar> \<le> 2 ^ 64 \<Longrightarrow> in_float_range r"
proof -
  assume "\<bar>r\<bar> \<le> 2 ^ 64"
  moreover have "(2 :: real) ^ 64 < float_limit"
    by (simp add: float_limit_def)
  ultimately show ?thesis
    unfolding in_float_range_def by linarith
qed

lemma two_powr_twelfth: "(2 powr (real j / 12)) ^ 12 = (2 :: real) ^ j"
proof -
  have "(2 powr (real j / 12)) ^ 12 = (2 powr (real j / 12)) powr (real 12)"
    by (rule powr_realpow [symmetric]) simp
  also have "\<dots> = 2 powr ((real j / 12) * real 12)"
    by (rule powr_powr)
  also have "\<dots> = 2 powr (real j)"
    by simp
  also have "\<dots> = 2 ^ j"
    by (rule powr_realpow) simp
  finally show ?thesis .
qed

lemma freq_product_12182_less: "440 * 2 powr (real 12182 / 12) < float_limit"
proof (rule power_less_imp_less_base [of _ 12])
  have "440 ^ 12 * (2 :: real) ^ 12182 < (2 ^ 1024 - 2 ^ 970) ^ 12"
    by simp
  then show "(440 * 2 powr (real 12182 / 12)) ^ 12 < float_limit ^ 12"
    by (simp only: power_mult_distrib two_powr_twelfth float_limit_def)
  show "0 \<le> float_limit"
    using float_limit_pos by simp
qed

lemma freq_product_12183_ge: "float_limit \<le> 440 * 2 powr (real 12183 / 12)"
proof -
  have "(2 :: real) ^ 1024 \<le> 440 * 2 powr (real 12183 / 12)"
  proof (rule power_le_imp_le_base [of _ 11])
    have twelve: "Suc 11 = 12"
      by simp
    have "((2 :: real) ^ 1024) ^ 12 \<le> 440 ^ 12 * 2 ^ 12183"
      by simp
    then show "((2 :: real) ^ 1024) ^ Suc 11 \<le> (440 * 2 powr (real 12183 / 12)) ^ Suc 11"
      by (simp only: twelve power_mult_distrib two_powr_twelfth)
    show "0 \<le> 440 * 2 powr (real 12183 / 12)"
      by simp
  qed
  with float_limit_le show ?thesis
    by linarith
qed

lemma freq_product_in_range:
  assumes "k \<le> 12182"
  shows "in_float_range (440 * 2 powr (real_of_int k / 12))"
proof -
  have "real_of_int k / 12 \<le> real 12182 / 12"
    using assms by simp
  then have "2 powr (real_of_int k / 12) \<le> 2 powr (real 12182 / 12)"
    by (rule powr_mono) simp
  then have "440 * 2 powr (real_of_int k / 12) \<le> 440 * 2 powr (real 12182 / 12)"
    by simp
  then have "440 * 2 powr (real_of_int k / 12) < float_limit"
    using freq_product_12182_less by (rule order_le_less_trans)
  moreover have "0 \<le> 440 * 2 powr (real_of_int k / 12)"
    by simp
  ultimately show ?thesis
    unfolding in_float_range_def by (simp only: abs_of_nonneg)
qed

lemma freq_product_out_of_range:
  assumes "12183 \<le> k"
  shows "\<not> in_float_range (440 * 2 powr (real_of_int k / 12))"
proof -
  have "real 12183 / 12 \<le> real_of_int k / 12"
    using assms by simp
  then have "2 powr (real 12183 / 12) \<le> 2 powr (real_of_int k / 12)"
    by (rule powr_mono) simp
  then have "440 * 2 powr (real 12183 / 12) \<le> 440 * 2 powr (real_of_int k / 12)"
    by simp
  with freq_product_12183_ge have "float_limit \<le> 440 * 2 powr (real_of_int k / 12)"
    by linarith
  then show ?thesis
    unfolding in_float_range_def by linarith
qed

subsection \<open>Rounding to a double\<close>

lemma round_half_even_int: "round_half_even (of_int n) = n"
  by (simp add: round_half_even_def)

lemma round_half_even_ge_floor: "\<lfloor>y\<rfloor> \<le> round_half_even y"
  by (simp add: round_half_even_def Let_def)

lemma float_round_eval:
  assumes "2 powr (of_int e) \<le> \<bar>x\<bar>" and "\<bar>x\<bar> < 2 powr (of_int (e + 1))" and "- 1022 \<le> e"
  shows "float_round x
         = of_int (round_half_even (x / 2 powr (of_int e - 52))) * 2 powr (of_int e - 52)"
proof -
  have pos: "0 < \<bar>x\<bar>"
    using assms(1) by (smt (verit) powr_gt_zero)
  then have "x \<noteq> 0"
    by simp
  moreover have "\<lfloor>log 2 \<bar>x\<bar>\<rfloor> = e"
    using assms(1,2) pos by (simp add: floor_log_eq_powr_iff)
  ultimately show ?thesis
    using assms(3) by (simp add: float_round_def Let_def max_def)
qed

lemma float_round_exact:
  assumes "x = of_int m * 2 powr (of_int k)" and "m \<noteq> 0" and "\<bar>m\<bar> < 2 ^ 53" and "- 1074 \<le> k"
  shows "float_round x = x"
proof -
  have x0: "x \<noteq> 0"
    using assms(1,2) by simp
  have absx: "\<bar>x\<bar> = of_int \<bar>m\<bar> * 2 powr (of_int k)"
    by (simp add: assms(1) abs_mult)
  define e0 where "e0 = \<lfloor>log 2 \<bar>x\<bar>\<rfloor>"
  define e where "e = max e0 (- 1022)"
  have "real_of_int \<bar>m\<bar> < 2 ^ 53"
    using assms(3) by (metis of_int_less_numeral_power_cancel_iff)
  then have "\<bar>x\<bar> < 2 ^ 53 * 2 powr (of_int k)"
    unfolding absx by simp
  also have "\<dots> = 2 powr (of_int (53 + k))"
    by (simp add: powr_add)
  finally have "log 2 \<bar>x\<bar> < of_int (53 + k)"
    using x0 by (simp add: log_less_iff)
  then have "e0 < 53 + k"
    unfolding e0_def by (simp only: floor_less_iff)
  with assms(4) have le: "e - 52 \<le> k"
    unfolding e_def by simp
  define j where "j = nat (k - (e - 52))"
  have k: "real_of_int k = (real_of_int e - 52) + real j"
    using le by (simp add: j_def)
  have pow: "(2 :: real) powr (of_int k) = 2 ^ j * 2 powr (of_int e - 52)"
    by (simp only: k powr_add) (simp add: powr_realpow)
  have "x / 2 powr (of_int e - 52) = of_int (m * 2 ^ j)"
    by (simp add: assms(1) pow)
  then have "round_half_even (x / 2 powr (of_int e - 52)) = m * 2 ^ j"
    by (simp only: round_half_even_int)
  then have "float_round x = of_int (m * 2 ^ j) * 2 powr (of_int e - 52)"
    using x0 by (simp add: float_round_def Let_def e_def e0_def)
  also have "\<dots> = x"
    by (simp add: assms(1) pow)
  finally show ?thesis .
qed

lemma float_round_int:
  assumes "\<bar>n\<bar> < 2 ^ 53"
  shows "float_round (of_int n) = of_int n"
proof (cases "n = 0")
  case True
  then show ?thesis
    by (simp add: float_round_def)
next
  case False
  have "real_of_int n = of_int n * 2 powr (of_int 0)"
    by simp
  from this False assms show ?thesis
    by (rule float_round_exact) simp
qed

lemma float_round_nonneg:
  assumes "0 \<le> x"
  shows "0 \<le> float_round x"
proof (cases "x = 0")
  case True
  then show ?thesis
    by (simp add: float_round_def)
next
  case False
  define ulp :: real where "ulp = 2 powr (of_int (max \<lfloor>log 2 \<bar>x\<bar>\<rfloor> (- 1022)) - 52)"
  have "0 < ulp"
    by (simp add: ulp_def)
  with assms have "0 \<le> x / ulp"
    by simp
  then have "0 \<le> \<lfloor>x / ulp\<rfloor>"
    by simp
  then have "0 \<le> round_half_even (x / ulp)"
    using round_half_even_ge_floor [of "x / ulp"] by linarith
  with \<open>0 < ulp\<close> have "0 \<le> of_int (round_half_even (x / ulp)) * ulp"
    by simp
  with False show ?thesis
    by (simp add: float_round_def Let_def ulp_def)
qed


subsection \<open>The two conversions\<close>

lemma float_of_int_small: "\<bar>k\<bar> \<le> 2 ^ 64 \<Longrightarrow> float_of_int k = Inr (real_of_int k)"
proof -
  assume "\<bar>k\<bar> \<le> 2 ^ 64"
  then have "real_of_int \<bar>k\<bar> \<le> real_of_int (2 ^ 64)"
    by (simp only: of_int_le_iff)
  then have "\<bar>real_of_int k\<bar> \<le> 2 ^ 64"
    by simp
  then show ?thesis
    by (simp add: float_of_int_def small_in_float_range)
qed

lemma midi_to_freq_cases:
  "midi_to_freq n =
     (if \<not> in_float_range (real_of_int (n - 69)) \<or> 12357 \<le> n then Inl OverflowError
      else if n \<le> 12251 then Inr (Finite (frequency_spec n))
      else Inr PosInf)"
proof (cases "in_float_range (real_of_int (n - 69))")
  case False
  then show ?thesis
    by (simp add: midi_to_freq_def float_of_int_def)
next
  case inr: True
  show ?thesis
  proof (cases "12357 \<le> n")
    case True
    then have "12288 \<le> n - 69"
      by simp
    then have "\<not> in_float_range (2 powr (real_of_int (n - 69) / 12))"
      by (rule two_powr_out_of_range)
    with inr True show ?thesis
      by (simp add: midi_to_freq_def float_of_int_def float_pow_def)
  next
    case no_raise: False
    then have "n - 69 \<le> 12287"
      by simp
    then have pow: "in_float_range (2 powr (real_of_int (n - 69) / 12))"
      by (rule two_powr_in_range)
    show ?thesis
    proof (cases "n \<le> 12251")
      case True
      then have "n - 69 \<le> 12182"
        by simp
      then have "in_float_range (440 * 2 powr (real_of_int (n - 69) / 12))"
        by (rule freq_product_in_range)
      with inr pow True show ?thesis
        by (simp add: midi_to_freq_def float_of_int_def float_pow_def frequency_spec_def)
    next
      case False
      then have "12183 \<le> n - 69"
        by simp
      then have "\<not> in_float_range (440 * 2 powr (real_of_int (n - 69) / 12))"
        by (rule freq_product_out_of_range)
      with inr pow no_raise False show ?thesis
        by (simp add: midi_to_freq_def float_of_int_def float_pow_def)
    qed
  qed
qed

lemma db_to_amp_le: "db \<le> 6160 \<Longrightarrow> db_to_amp db = Inr (10 powr (db / 20))"
proof -
  assume "db \<le> 6160"
  then have "db / 20 \<le> 308"
    by simp
  then have "in_float_range (10 powr (db / 20))"
    by (rule ten_powr_in_range)
  then show ?thesis
    by (simp add: db_to_amp_def float_pow_def)
qed

text \<open>
  C3, as stated, fails: \<open>frequency\<close> is not total on the integers. At note 12357 the
  exponent is \<open>(12357 - 69) / 12 = 1024\<close> and \<open>2 ** 1024.0\<close> raises \<open>OverflowError\<close>.
\<close>

theorem midi_to_freq_total_counterexample: "midi_to_freq 12357 = Inl OverflowError"
proof -
  have "\<not> in_float_range (2 powr (real_of_int (12357 - 69) / 12))"
    by (rule two_powr_out_of_range) simp
  moreover have "in_float_range (real_of_int (12357 - 69))"
    by (simp add: small_in_float_range)
  ultimately show ?thesis
    by (simp add: midi_to_freq_def float_of_int_def float_pow_def)
qed

text \<open>
  C3, amended: \<open>frequency(n)\<close> returns \<open>440.0 * 2^((n-69)/12)\<close> for every \<open>n \<le> 12251\<close> whose
  difference \<open>n - 69\<close> converts to a float, the notes 21 to 108 among them; for
  \<open>12252 \<le> n \<le> 12356\<close> the product with 440.0 leaves the range and it returns \<open>inf\<close>; for
  \<open>n \<ge> 12357\<close>, and when \<open>n - 69\<close> is too large to convert, it raises \<open>OverflowError\<close>.
  \<open>frequency(69)\<close> is \<open>440.0\<close> exactly.
\<close>

theorem midi_to_freq_contract:
  "midi_to_freq n =
     (if \<not> in_float_range (real_of_int (n - 69)) \<or> 12357 \<le> n then Inl OverflowError
      else if n \<le> 12251 then Inr (Finite (frequency_spec n))
      else Inr PosInf)
   \<and> frequency_spec n = 440 * 2 powr (real_of_int (n - 69) / 12)
   \<and> midi_to_freq 69 = Inr (Finite 440)"
proof -
  have "in_float_range (real_of_int (69 - 69))"
    by (simp add: small_in_float_range)
  then have "midi_to_freq 69 = Inr (Finite 440)"
    by (simp add: midi_to_freq_cases frequency_spec_def)
  then show ?thesis
    by (simp add: midi_to_freq_cases frequency_spec_def)
qed

theorem midi_to_freq_contract_witness:
  "midi_to_freq 108 = Inr (Finite (frequency_spec 108))
   \<and> midi_to_freq 12300 = Inr PosInf
   \<and> midi_to_freq 69 = Inr (Finite 440)"
proof -
  have "in_float_range (real_of_int (108 - 69))" and "in_float_range (real_of_int (12300 - 69))"
    by (simp_all add: small_in_float_range)
  then show ?thesis
    using midi_to_freq_contract [of 108] midi_to_freq_contract [of 12300] by simp
qed

text \<open>
  C4, as stated, fails: \<open>amplitude\<close> is not total on the reals. At 6180 dB the exponent is
  309 and \<open>10 ** 309.0\<close> raises \<open>OverflowError\<close>.
\<close>

theorem db_to_amp_total_counterexample: "db_to_amp 6180 = Inl OverflowError"
  using ten_powr_309_out_of_range by (simp add: db_to_amp_def float_pow_def)

text \<open>
  C4, amended: for every \<open>db \<le> 6160\<close> (the power is then at most \<open>10^308\<close>, a double)
  \<open>amplitude(db)\<close> returns \<open>10^(db/20)\<close>; \<open>amplitude(0) = 1.0\<close>, \<open>amplitude(-20) = 0.1\<close>, and
  for every level in \<open>[-30, -6]\<close> the result lies strictly between 0 and 1.
\<close>

theorem db_to_amp_contract:
  "(db \<le> 6160 \<longrightarrow> db_to_amp db = Inr (amplitude_spec db))
   \<and> amplitude_spec db = 10 powr (db / 20)
   \<and> db_to_amp 0 = Inr 1
   \<and> db_to_amp (- 20) = Inr (1 / 10)
   \<and> (- 30 \<le> db \<and> db \<le> - 6 \<longrightarrow> (\<exists>a. db_to_amp db = Inr a \<and> 0 < a \<and> a < 1))"
proof (intro conjI impI)
  assume "db \<le> 6160"
  then show "db_to_amp db = Inr (amplitude_spec db)"
    by (simp add: db_to_amp_le amplitude_spec_def)
next
  show "amplitude_spec db = 10 powr (db / 20)"
    by (simp add: amplitude_spec_def)
next
  show "db_to_amp 0 = Inr 1"
    by (simp add: db_to_amp_le)
next
  have "(10 :: real) powr (- 20 / 20) = 1 / 10"
    by (simp add: powr_minus_divide)
  then show "db_to_amp (- 20) = Inr (1 / 10)"
    by (simp add: db_to_amp_le)
next
  assume r: "- 30 \<le> db \<and> db \<le> - 6"
  then have "db_to_amp db = Inr (10 powr (db / 20))"
    by (simp add: db_to_amp_le)
  moreover have "(10 :: real) powr (db / 20) < 1"
    using r by (simp add: powr_less_one)
  moreover have "0 < (10 :: real) powr (db / 20)"
    by simp
  ultimately show "\<exists>a. db_to_amp db = Inr a \<and> 0 < a \<and> a < 1"
    by blast
qed

theorem db_to_amp_contract_witness:
  "db_to_amp (- 6) = Inr (amplitude_spec (- 6))
   \<and> (\<exists>a. db_to_amp (- 6) = Inr a \<and> 0 < a \<and> a < 1)"
proof -
  have a: "(- 6 :: real) \<le> 6160"
    by simp
  have b: "- 30 \<le> (- 6 :: real) \<and> (- 6 :: real) \<le> - 6"
    by simp
  from db_to_amp_contract [of "- 6"] a b show ?thesis
    by blast
qed

subsection \<open>The synthesiser\<close>

lemma np_linspace_open:
  assumes "0 \<le> num"
  shows "np_linspace 0 stop num False =
           Inr (map (\<lambda>i. real i * (stop / real_of_int num)) [0..<nat num])"
proof (cases "0 < num")
  case True
  then show ?thesis
    using assms by (simp add: np_linspace_def Let_def comp_def)
next
  case False
  with assms have "num = 0"
    by simp
  then show ?thesis
    by (simp add: np_linspace_def)
qed

lemma sample_times_cases:
  "sample_times sr d =
     (if \<not> in_float_range (real_of_int sr) \<or> \<not> in_float_range (real_of_int sr * d)
      then Inl OverflowError
      else if trunc (float_round (real_of_int sr * d)) < 0 then Inl ValueError
      else Inr (map (\<lambda>i. real i * (d / real_of_int (trunc (float_round (real_of_int sr * d)))))
                  [0..<nat (trunc (float_round (real_of_int sr * d)))]))"
proof (cases "0 \<le> trunc (float_round (real_of_int sr * d))")
  case True
  then show ?thesis
    by (simp add: sample_times_def float_of_int_def np_linspace_open)
next
  case False
  then show ?thesis
    by (simp add: sample_times_def float_of_int_def np_linspace_def)
qed


lemma trunc_neg_iff: "trunc x < 0 \<longleftrightarrow> x \<le> - 1"
  unfolding trunc_def by (auto simp: ceiling_less_iff)

text \<open>What a returning call of \<open>sample_times\<close> returns.\<close>

lemma sample_times_Inr:
  assumes "sample_times sr d = Inr t"
  shows "int (length t) = trunc (float_round (real_of_int sr * d))"
    and "\<And>i. i < length t \<Longrightarrow> t ! i = real i * (d / real (length t))"
proof -
  let ?n = "trunc (float_round (real_of_int sr * d))"
  from assms have n: "0 \<le> ?n"
    and t: "t = map (\<lambda>i. real i * (d / real_of_int ?n)) [0..<nat ?n]"
    by (auto simp: sample_times_cases split: if_splits)
  from t n show len: "int (length t) = ?n"
    by simp
  fix i
  assume i: "i < length t"
  then have "i < nat ?n"
    using len by linarith
  then have "t ! i = real i * (d / real_of_int ?n)"
    by (subst t) simp
  moreover have "real_of_int ?n = real (length t)"
    using len by (metis of_int_of_nat_eq)
  ultimately show "t ! i = real i * (d / real (length t))"
    by (simp only:)
qed

lemma sample_times_returns:
  assumes "in_float_range (real_of_int sr)" "in_float_range (real_of_int sr * d)"
    and "0 \<le> real_of_int sr * d"
  shows "\<exists>t. sample_times sr d = Inr t"
proof -
  have "0 \<le> float_round (real_of_int sr * d)"
    using assms(3) by (rule float_round_nonneg)
  then have "\<not> trunc (float_round (real_of_int sr * d)) < 0"
    by (simp add: trunc_neg_iff)
  with assms(1,2) show ?thesis
    by (simp add: sample_times_cases)
qed

lemma sample_times_eval:
  assumes "in_float_range (real_of_int sr)" and "in_float_range (real_of_int sr * d)"
    and "trunc (float_round (real_of_int sr * d)) = n" and "0 \<le> n"
  shows "sample_times sr d = Inr (map (\<lambda>i. real i * (d / real_of_int n)) [0..<nat n])"
  using assms by (simp add: sample_times_cases)


lemma sample_times_5_half: "sample_times 5 (1 / 2) = Inr [0, 1 / 4]"
proof -
  have "float_round (5 / 2) = 5 / 2"
    by (rule float_round_exact [of _ 5 "- 1"]) (simp_all add: powr_minus_divide)
  moreover have "real_of_int 5 * (1 / 2) = (5 / 2 :: real)"
    by simp
  ultimately have "float_round (real_of_int 5 * (1 / 2)) = 5 / 2"
    by (simp only:)
  then have "trunc (float_round (real_of_int 5 * (1 / 2))) = 2"
    by (simp only: trunc_def) simp
  then have "sample_times 5 (1 / 2) = Inr (map (\<lambda>i. real i * ((1 / 2) / real_of_int 2)) [0..<nat 2])"
    by (intro sample_times_eval) (simp_all add: small_in_float_range)
  then show ?thesis
    by (simp add: upt_rec)
qed

text \<open>
  The double \<open>0.3\<close> is \<open>5404319552844595 / 2^54\<close>, below three tenths; ten times it rounds
  to \<open>3.0\<close>, and the call takes three samples.
\<close>

lemma float_round_between_2_and_4:
  assumes "2 \<le> x" and "x < 4"
  shows "float_round x = of_int (round_half_even (x * 2 ^ 51)) / 2 ^ 51"
proof -
  have p1: "2 powr (of_int 1) = (2 :: real)"
    by simp
  have p2: "2 powr (of_int (1 + 1)) = (4 :: real)"
    using powr_realpow [of "2 :: real" 2] by simp
  have ulp: "2 powr (of_int 1 - 52) = (1 / 2 ^ 51 :: real)"
    using powr_realpow [of "2 :: real" 51] by (simp add: powr_minus_divide)
  have "float_round x
        = of_int (round_half_even (x / 2 powr (of_int 1 - 52))) * 2 powr (of_int 1 - 52)"
  proof (rule float_round_eval)
    show "2 powr (of_int 1) \<le> \<bar>x\<bar>"
      unfolding p1 using assms(1) by simp
    show "\<bar>x\<bar> < 2 powr (of_int (1 + 1))"
      unfolding p2 using assms by simp
    show "- 1022 \<le> (1 :: int)"
      by simp
  qed
  then show ?thesis
    by (simp only: ulp) simp
qed

lemma float_round_ten_times_03:
  "float_round (real_of_int 10 * (5404319552844595 / 18014398509481984)) = 3"
proof -
  define x :: real where "x = real_of_int 10 * (5404319552844595 / 18014398509481984)"
  have "2 \<le> x" and "x < 4"
    by (simp_all add: x_def)
  then have "float_round x = of_int (round_half_even (x * 2 ^ 51)) / 2 ^ 51"
    by (rule float_round_between_2_and_4)
  also have "x * 2 ^ 51 = 27021597764222975 / 4"
    by (simp add: x_def)
  also have "round_half_even (27021597764222975 / 4) = 6755399441055744"
    by (simp add: round_half_even_def Let_def)
  also have "real_of_int 6755399441055744 / 2 ^ 51 = 3"
    by simp
  finally have "float_round x = 3" .
  then show ?thesis
    by (simp only: x_def)
qed

lemma sample_times_10_03:
  "\<exists>t. sample_times 10 (5404319552844595 / 18014398509481984) = Inr t \<and> length t = 3"
proof -
  have "trunc (float_round (real_of_int 10 * (5404319552844595 / 18014398509481984))) = 3"
    by (simp only: float_round_ten_times_03 trunc_def) simp
  then have "sample_times 10 (5404319552844595 / 18014398509481984)
    = Inr (map (\<lambda>i. real i * ((5404319552844595 / 18014398509481984) / real_of_int 3)) [0..<nat 3])"
    by (intro sample_times_eval) (simp_all add: small_in_float_range)
  then show ?thesis
    by simp
qed

lemma generate_sine_wave_Inr:
  "generate_sine_wave native sr d f a = Inr xs \<longleftrightarrow>
     (\<exists>t. sample_times sr d = Inr t
        \<and> xs = stereo_wave (sine_wave_int native (sine_wave a f t)))"
  by (auto simp: generate_sine_wave_def split: sum.splits)

lemma length_stereo_wave: "length (stereo_wave xs) = 2 * length xs"
  by (induction xs) (simp_all add: stereo_wave_def)


lemma length_sine_wave_int: "length (sine_wave_int native w) = length w"
  by (simp add: sine_wave_int_def)

lemma length_sine_wave: "length (sine_wave a f t) = length t"
  by (simp add: sine_wave_def)

text \<open>
  C1: the claim has the sample times spaced by exactly \<open>1 / sampleRate\<close>; the code spaces
  the \<open>n = int(sampleRate * duration)\<close> samples it takes by \<open>duration / n\<close>. At 5 samples a
  second and half a second it takes \<open>int(2.5) = 2\<close> samples, at 0 and at 0.25, not at 0 and
  0.2: with frequency 1 and amplitude 1 the second frame is the peak of the sine,
  \<open>sin(2\<pi> * 0.25) * 32767 = 32767\<close>, on both channels.
\<close>

theorem sample_times_step_divergence:
  "sample_times 5 (1 / 2) = Inr [0, 1 / 4]
   \<and> [0, 1 / 4 :: real] ! 1 \<noteq> real 1 * (1 / real_of_int 5)
   \<and> generate_sine_wave wrap_cast 5 (1 / 2) 1 1 = Inr [0, 0, 32767, 32767]"
proof -
  have "np_int16 wrap_cast 32767 = 32767" and "np_int16 wrap_cast 0 = 0"
    by (simp_all add: np_int16_def trunc_def)
  then have "generate_sine_wave wrap_cast 5 (1 / 2) 1 1 = Inr [0, 0, 32767, 32767]"
    by (simp add: generate_sine_wave_def sample_times_5_half sine_wave_def sine_wave_int_def
        stereo_wave_def)
  then show ?thesis
    by (simp add: sample_times_5_half)
qed

lemma trunc_bounds: "\<bar>x\<bar> \<le> real_of_int m \<Longrightarrow> \<bar>trunc x\<bar> \<le> m"
  unfolding trunc_def by (auto simp: abs_le_iff le_floor_iff floor_le_iff ceiling_le_iff le_ceiling_iff) linarith+

lemma sint_int16: "- 32768 \<le> k \<Longrightarrow> k \<le> 32767 \<Longrightarrow> sint (word_of_int k :: int16) = k"
  by (simp add: int_word_sint)

lemma np_int16_in_range:
  assumes "\<bar>x\<bar> \<le> 32767"
  shows "np_int16 native x = word_of_int (trunc x)"
    and "sint (np_int16 native x) = trunc x"
    and "\<bar>trunc x\<bar> \<le> 32767"
proof -
  from assms have "- 32769 < x \<and> x < 32768"
    by linarith
  then show eq: "np_int16 native x = word_of_int (trunc x)"
    by (simp add: np_int16_def)
  from assms have "\<bar>x\<bar> \<le> real_of_int 32767"
    by simp
  then show b: "\<bar>trunc x\<bar> \<le> 32767"
    by (rule trunc_bounds)
  then show "sint (np_int16 native x) = trunc x"
    unfolding eq by (intro sint_int16) linarith+
qed









subsection \<open>File names\<close>

lemma str_nat_digit: "n < 10 \<Longrightarrow> str_nat n = [digit_char n]"
  by (subst str_nat.simps) simp

lemma str_nat_two: "10 \<le> n \<Longrightarrow> n < 100 \<Longrightarrow> str_nat n = [digit_char (n div 10), digit_char (n mod 10)]"
  by (subst str_nat.simps) (simp add: str_nat_digit)

lemma str_nat_three:
  "100 \<le> n \<Longrightarrow> n < 1000 \<Longrightarrow>
     str_nat n = [digit_char (n div 100), digit_char (n div 10 mod 10), digit_char (n mod 10)]"
  by (subst str_nat.simps) (simp add: str_nat_two div_mult2_eq [symmetric])

lemma digit_char_zero: "digit_char 0 = CHR ''0''"
  by (simp add: digit_char_def)

lemma format_03d_digits:
  assumes "0 \<le> i" and "i < 1000"
  shows "format_03d i =
    [digit_char (nat i div 100), digit_char (nat i div 10 mod 10), digit_char (nat i mod 10)]"
proof -
  consider "nat i < 10" | "10 \<le> nat i" "nat i < 100" | "100 \<le> nat i" "nat i < 1000"
    using assms by linarith
  then show ?thesis
  proof cases
    case 1
    then show ?thesis
      using assms by (simp add: format_03d_def str_nat_digit digit_char_zero numeral_3_eq_3)
  next
    case 2
    then show ?thesis
      using assms by (simp add: format_03d_def str_nat_two digit_char_zero)
  next
    case 3
    then show ?thesis
      using assms by (simp add: format_03d_def str_nat_three)
  qed
qed

lemma digit_char_inj:
  assumes "d < 10" and "e < 10" and "digit_char d = digit_char e"
  shows "d = e"
proof -
  have cases: "k \<in> {0, 1, 2, 3, 4, 5, 6, 7, 8, 9}" if "k < 10" for k :: nat
    using that by auto
  from cases [OF assms(1)] cases [OF assms(2)] assms(3) show ?thesis
    by (auto simp: digit_char_def)
qed

lemma rate_tags_44100: "rate_tags 44100 = Some ''44''"
  by (simp add: rate_tags_def)

lemma rate_tags_48000: "rate_tags 48000 = Some ''48''"
  by (simp add: rate_tags_def)

lemma file_name_in_bank:
  assumes "21 \<le> n" "n \<le> 108" "v < 8" "r = 44100 \<or> r = 48000"
  shows "file_name n v r =
    ''m'' @ [digit_char (nat n div 100), digit_char (nat n div 10 mod 10), digit_char (nat n mod 10)]
    @ ''-vel'' @ [digit_char v] @ ''-f'' @ (if r = 44100 then ''44'' else ''48'') @ ''.wav''"
proof -
  have f: "format_03d n =
    [digit_char (nat n div 100), digit_char (nat n div 10 mod 10), digit_char (nat n mod 10)]"
    using assms(1,2) by (intro format_03d_digits) simp_all
  have s: "str_nat v = [digit_char v]"
    using assms(3) by (simp add: str_nat_digit)
  from assms(4) show ?thesis
  proof
    assume "r = 44100"
    then show ?thesis
      by (simp add: file_name_def rate_tags_44100 filename_of_def note_str_of_def f s)
  next
    assume "r = 48000"
    then show ?thesis
      by (simp add: file_name_def rate_tags_48000 filename_of_def note_str_of_def f s)
  qed
qed

lemma three_digits_inj:
  assumes "a div 100 = b div 100" and "a div 10 mod 10 = b div 10 mod 10" and "a mod 10 = b mod 10"
  shows "a = (b :: nat)"
proof -
  have dec: "k = 100 * (k div 100) + 10 * (k div 10 mod 10) + k mod 10" for k :: nat
  proof -
    have "k div 10 = 10 * (k div 10 div 10) + k div 10 mod 10"
      by simp
    moreover have "k div 10 div 10 = k div 100"
      by (simp add: div_mult2_eq [symmetric])
    moreover have "k = 10 * (k div 10) + k mod 10"
      by simp
    ultimately show ?thesis
      by linarith
  qed
  have "a = 100 * (a div 100) + 10 * (a div 10 mod 10) + a mod 10"
    by (rule dec)
  also have "\<dots> = 100 * (b div 100) + 10 * (b div 10 mod 10) + b mod 10"
    by (simp only: assms)
  also have "\<dots> = b"
    by (rule dec [symmetric])
  finally show ?thesis .
qed

lemma file_name_inj:
  assumes "21 \<le> n" "n \<le> 108" "v < 8" "r = 44100 \<or> r = 48000"
    and "21 \<le> n'" "n' \<le> 108" "v' < 8" "r' = 44100 \<or> r' = 48000"
    and eq: "file_name n v r = file_name n' v' r'"
  shows "n = n' \<and> v = v' \<and> r = r'"
proof -
  note a = file_name_in_bank [OF assms(1-4)] and b = file_name_in_bank [OF assms(5-8)]
  from eq have all: "digit_char (nat n div 100) = digit_char (nat n' div 100)
    \<and> digit_char (nat n div 10 mod 10) = digit_char (nat n' div 10 mod 10)
    \<and> digit_char (nat n mod 10) = digit_char (nat n' mod 10)
    \<and> digit_char v = digit_char v'
    \<and> (if r = 44100 then ''44'' else ''48'') = (if r' = 44100 then ''44'' else ''48'')"
    unfolding a b by (simp only: append_Cons append_Nil list.inject simp_thms append_same_eq)
  have lt: "nat n div 100 < 10" "nat n' div 100 < 10"
    using assms(2,6) by simp_all
  have "nat n div 100 = nat n' div 100"
    using lt all by (intro digit_char_inj) simp_all
  moreover have "nat n div 10 mod 10 = nat n' div 10 mod 10"
    using all by (intro digit_char_inj) simp_all
  moreover have "nat n mod 10 = nat n' mod 10"
    using all by (intro digit_char_inj) simp_all
  ultimately have "nat n = nat n'"
    by (rule three_digits_inj)
  with assms(1,5) have "n = n'"
    by simp
  moreover have "v = v'"
    using assms(3,7) all by (intro digit_char_inj) simp_all
  moreover have "r = r'"
  proof -
    from all have "(if r = 44100 then ''44'' else ''48'') = (if r' = 44100 then ''44'' else ''48'')"
      by simp
    then have "(r = 44100) = (r' = 44100)"
      by (simp split: if_splits)
    with assms(4,8) show ?thesis
      by auto
  qed
  ultimately show ?thesis
    by simp
qed

lemma file_name_inj_on: "inj_on (\<lambda>(n, v, r). file_name n v r) bank"
proof (rule inj_onI)
  fix x y
  assume x: "x \<in> bank" and y: "y \<in> bank"
    and eq: "(case x of (n, v, r) \<Rightarrow> file_name n v r) = (case y of (n, v, r) \<Rightarrow> file_name n v r)"
  obtain n v r where xe: "x = (n, v, r)"
    by (cases x) auto
  obtain n' v' r' where ye: "y = (n', v', r')"
    by (cases y) auto
  from x xe have a: "21 \<le> n" "n \<le> 108" "v < 8" "r = 44100 \<or> r = 48000"
    by (simp_all add: bank_def)
  from y ye have b: "21 \<le> n'" "n' \<le> 108" "v' < 8" "r' = 44100 \<or> r' = 48000"
    by (simp_all add: bank_def)
  from eq xe ye have "file_name n v r = file_name n' v' r'"
    by simp
  from file_name_inj [OF a b this] xe ye show "x = y"
    by simp
qed

lemma card_bank: "card bank = 1408"
  by (simp add: bank_def card_cartesian_product)

lemma file_name_example: "file_name 69 7 44100 = ''m069-vel7-f44.wav''"
proof -
  have "file_name 69 7 44100 =
    ''m'' @ [digit_char (nat 69 div 100), digit_char (nat 69 div 10 mod 10), digit_char (nat 69 mod 10)]
    @ ''-vel'' @ [digit_char 7] @ ''-f'' @ (if (44100 :: int) = 44100 then ''44'' else ''48'') @ ''.wav''"
    by (rule file_name_in_bank) simp_all
  then show ?thesis
    by (simp add: digit_char_def)
qed

subsection \<open>The loops of \<open>main\<close>\<close>

lemma for_loop_fold:
  assumes "\<And>x s. x \<in> set xs \<Longrightarrow> body x s = Inr (g x s)"
  shows "for_loop body xs s = Inr (fold g xs s)"
  using assms by (induction xs arbitrary: s) simp_all

lemma fold_concat_map: "fold f (concat (map g xs)) = fold (\<lambda>x. fold f (g x)) xs"
  by (induction xs) simp_all

lemma db_levels_run: "np_linspace (- 30) (- 6) 8 True = Inr (map db_level [0..<8])"
  by (simp add: np_linspace_def Let_def upt_rec db_level_def)

lemma db_level_range: "v < 8 \<Longrightarrow> - 30 \<le> db_level v \<and> db_level v \<le> - 6"
proof -
  assume "v < 8"
  then have "real v \<le> 7"
    by simp
  then have "real v * (24 / 7) \<le> 24"
    by simp
  moreover have "0 \<le> real v * (24 / 7)"
    by simp
  ultimately show ?thesis
    unfolding db_level_def by linarith
qed

lemma db_to_amp_level: "v < 8 \<Longrightarrow> db_to_amp (db_level v) = Inr (amplitude_spec (db_level v))"
proof -
  assume "v < 8"
  from db_level_range [OF this] have "db_level v \<le> 6160"
    by linarith
  then show ?thesis
    by (simp add: db_to_amp_le amplitude_spec_def)
qed

lemma midi_to_freq_note:
  assumes "21 \<le> n" and "n \<le> 108"
  shows "midi_to_freq n = Inr (Finite (frequency_spec n))"
proof -
  from assms have "\<bar>real_of_int (n - 69)\<bar> \<le> 2 ^ 64"
    by simp
  then have "in_float_range (real_of_int (n - 69))"
    by (rule small_in_float_range)
  with assms(2) show ?thesis
    by (simp add: midi_to_freq_cases)
qed

lemma driver_rate:
  assumes "r = 44100 \<or> r = 48000"
  shows "0 < r" and "\<exists>data. generate_sine_wave native r 5 f a = Inr data"
proof -
  from assms show "0 < r"
    by auto
  from assms have "\<bar>real_of_int r\<bar> \<le> 2 ^ 64" and "\<bar>real_of_int r * 5\<bar> \<le> 2 ^ 64"
    and "0 \<le> real_of_int r * (5 :: real)"
    by auto
  then have "in_float_range (real_of_int r)" and "in_float_range (real_of_int r * 5)"
    and "0 \<le> real_of_int r * (5 :: real)"
    by (simp_all only: small_in_float_range)
  then obtain t where "sample_times r 5 = Inr t"
    using sample_times_returns [of r 5] by blast
  then show "\<exists>data. generate_sine_wave native r 5 f a = Inr data"
    by (simp add: generate_sine_wave_def)
qed

lemma file_name_tag: "rate_tags r = Some tag \<Longrightarrow> filename_of (note_str_of n) v tag = file_name n v r"
  by (simp add: file_name_def)

lemma rate_tags_driver: "r = 44100 \<or> r = 48000 \<Longrightarrow> \<exists>tag. rate_tags r = Some tag"
  using rate_tags_44100 rate_tags_48000 by blast

lemma rate_body_entry:
  assumes "r = 44100 \<or> r = 48000"
  shows "rate_body native d 5 (note_str_of n) v (Finite (frequency_spec n)) (amplitude_spec (db_level v)) r fs
         = Inr (write_entry native d (n, v, r) fs)"
proof -
  from driver_rate(2) [OF assms] obtain data
    where data: "generate_sine_wave native r 5 (frequency_spec n) (amplitude_spec (db_level v)) = Inr data"
    by blast
  then have tone: "tone native n v r = data"
    by (simp add: tone_def)
  from rate_tags_driver [OF assms] obtain tag where tag: "rate_tags r = Some tag"
    by blast
  from driver_rate(1) [OF assms] have pos: "\<not> r \<le> 0"
    by simp
  show ?thesis
    unfolding rate_body_def
    by (simp add: generate_sine_wave_call_def data tag Let_def save_wav_file_def pos file_name_tag [OF tag]
        write_entry_def planned_file_def tone)
qed

lemma db_table_nth: "v < 8 \<Longrightarrow> map db_level [0..<8] ! v = db_level v"
  by (simp only: nth_map length_upt nth_upt minus_nat.diff_0 add_0)

lemma db_table_length: "length (map db_level [0..<8]) = 8"
  by (simp only: length_map length_upt minus_nat.diff_0)

lemma vel_body_entries:
  assumes "v < 8" and "\<And>r. r \<in> set rates \<Longrightarrow> r = 44100 \<or> r = 48000"
  shows "vel_body native d rates 5 (map db_level [0..<8]) (note_str_of n) (Finite (frequency_spec n)) v fs
         = Inr (fold (\<lambda>r. write_entry native d (n, v, r)) rates fs)"
proof -
  have "for_loop (rate_body native d 5 (note_str_of n) v (Finite (frequency_spec n))
                    (amplitude_spec (db_level v))) rates fs
        = Inr (fold (\<lambda>r. write_entry native d (n, v, r)) rates fs)"
    by (rule for_loop_fold) (rule rate_body_entry, rule assms(2))
  then show ?thesis
    unfolding vel_body_def
    by (simp only: db_table_length db_table_nth [OF assms(1)] assms(1) if_True Let_def
        db_to_amp_level [OF assms(1)] sum.case)
qed

lemma note_body_entries:
  assumes "21 \<le> n" and "n \<le> 108" and "\<And>r. r \<in> set rates \<Longrightarrow> r = 44100 \<or> r = 48000"
  shows "note_body native d rates 5 (map db_level [0..<8]) n fs
         = Inr (fold (\<lambda>v. fold (\<lambda>r. write_entry native d (n, v, r)) rates) [0..<8] fs)"
proof -
  have "for_loop (vel_body native d rates 5 (map db_level [0..<8]) (note_str_of n)
                    (Finite (frequency_spec n))) [0..<8] fs
        = Inr (fold (\<lambda>v. fold (\<lambda>r. write_entry native d (n, v, r)) rates) [0..<8] fs)"
  proof (rule for_loop_fold)
    fix v s
    assume "v \<in> set [0..<8]"
    then have "v < 8"
      by (simp only: set_upt atLeastLessThan_iff)
    then show "vel_body native d rates 5 (map db_level [0..<8]) (note_str_of n)
                 (Finite (frequency_spec n)) v s
               = Inr (fold (\<lambda>r. write_entry native d (n, v, r)) rates s)"
      using assms(3) by (rule vel_body_entries)
  qed
  then show ?thesis
    unfolding note_body_def
    by (simp only: midi_to_freq_note [OF assms(1,2)] sum.case Let_def)
qed

lemma main_fold:
  "main native arg system home fs
   = Inr (fold (write_entry native (output_dir_of arg system home)) bank_list fs)"
proof -
  let ?d = "output_dir_of arg system home"
  have rates: "r = 44100 \<or> r = 48000" if "r \<in> set [44100, 48000 :: int]" for r
    using that by simp
  have "for_loop (note_body native ?d [44100, 48000] 5 (map db_level [0..<8])) [21..108] fs
        = Inr (fold (\<lambda>n. fold (\<lambda>v. fold (\<lambda>r. write_entry native ?d (n, v, r)) [44100, 48000])
                 [0..<8]) [21..108] fs)"
  proof (rule for_loop_fold)
    fix n s
    assume "n \<in> set [21..108]"
    then have "21 \<le> n" and "n \<le> 108"
      by (simp_all only: set_upto atLeastAtMost_iff)
    then show "note_body native ?d [44100, 48000] 5 (map db_level [0..<8]) n s
               = Inr (fold (\<lambda>v. fold (\<lambda>r. write_entry native ?d (n, v, r)) [44100, 48000])
                   [0..<8] s)"
      using rates by (rule note_body_entries)
  qed
  moreover have "fold (write_entry native ?d) bank_list
     = fold (\<lambda>n. fold (\<lambda>v. fold (\<lambda>r. write_entry native ?d (n, v, r)) [44100, 48000])
                 [0..<8]) [21..108]"
    unfolding bank_list_def
    by (simp only: fold_concat_map fold_map comp_def)
  ultimately show ?thesis
    unfolding main_def
    by (simp only: Let_def db_levels_run sum.case)
qed

lemma set_bank_list: "set bank_list = bank"
proof -
  have "set bank_list = (\<Union>n\<in>{21..108}. \<Union>v\<in>{0..<8}. (\<lambda>r. (n, v, r)) ` {44100, 48000})"
    unfolding bank_list_def
    by (simp only: set_concat set_map set_upto set_upt image_image list.set) 
  also have "\<dots> = bank"
    unfolding bank_def by auto
  finally show ?thesis .
qed

lemma write_entry_upd:
  "write_entry native d e fs = fs(entry_path d e \<mapsto> entry_file native e)"
  by (cases e) (simp add: write_entry_def entry_path_def entry_file_def)

lemma fold_write_other:
  assumes "p \<notin> entry_path d ` set es"
  shows "fold (write_entry native d) es fs p = fs p"
  using assms by (induction es arbitrary: fs) (auto simp: write_entry_upd)

lemma fold_write_hit:
  assumes "e \<in> set es" and "inj_on (entry_path d) (set es)"
  shows "fold (write_entry native d) es fs (entry_path d e) = Some (entry_file native e)"
  using assms
proof (induction es arbitrary: fs)
  case Nil
  then show ?case by simp
next
  case (Cons x xs)
  show ?case
  proof (cases "e \<in> set xs")
    case True
    moreover from Cons.prems(2) have "inj_on (entry_path d) (set xs)"
      by (simp add: inj_on_def)
    ultimately show ?thesis
      using Cons.IH by simp
  next
    case False
    with Cons.prems(1) have ex: "e = x"
      by simp
    have "entry_path d e \<notin> entry_path d ` set xs"
    proof
      assume "entry_path d e \<in> entry_path d ` set xs"
      then obtain y where y: "y \<in> set xs" and eq: "entry_path d e = entry_path d y"
        by blast
      from Cons.prems(2) y ex eq have "e = y"
        by (simp add: inj_on_def)
      with y False show False
        by simp
    qed
    then have "fold (write_entry native d) xs (write_entry native d x fs) (entry_path d e)
               = write_entry native d x fs (entry_path d e)"
      by (rule fold_write_other)
    also have "\<dots> = Some (entry_file native e)"
      by (simp add: ex write_entry_upd)
    finally show ?thesis
      by (simp only: ex fold_simps)
  qed
qed

lemma dom_fold_write:
  "dom (fold (write_entry native d) es fs) = dom fs \<union> entry_path d ` set es"
  by (induction es arbitrary: fs) (auto simp: write_entry_upd)

lemma entry_path_inj_on: "inj_on (entry_path d) bank"
proof (rule inj_onI)
  fix x y
  assume "x \<in> bank" and "y \<in> bank" and "entry_path d x = entry_path d y"
  then have "(case x of (n, v, r) \<Rightarrow> file_name n v r) = (case y of (n, v, r) \<Rightarrow> file_name n v r)"
    by (cases x, cases y) (simp add: entry_path_def)
  with file_name_inj_on show "x = y"
    using \<open>x \<in> bank\<close> \<open>y \<in> bank\<close> by (rule inj_onD)
qed

text \<open>The run, file by file.\<close>

lemma main_files:
  "\<exists>fs'. main native arg system home fs = Inr fs'
     \<and> (\<forall>e. e \<in> bank \<longrightarrow>
           fs' (entry_path (output_dir_of arg system home) e) = Some (entry_file native e))
     \<and> (\<forall>p. p \<notin> entry_path (output_dir_of arg system home) ` bank \<longrightarrow> fs' p = fs p)
     \<and> dom fs' = dom fs \<union> entry_path (output_dir_of arg system home) ` bank"
proof (intro exI conjI allI impI)
  let ?d = "output_dir_of arg system home"
  let ?fs = "fold (write_entry native ?d) bank_list fs"
  show "main native arg system home fs = Inr ?fs"
    by (rule main_fold)
  show "?fs (entry_path ?d e) = Some (entry_file native e)" if "e \<in> bank" for e
    using that entry_path_inj_on [of ?d]
    by (intro fold_write_hit) (simp_all only: set_bank_list)
  show "?fs p = fs p" if "p \<notin> entry_path ?d ` bank" for p
    by (rule fold_write_other) (simp only: set_bank_list that not_False_eq_True)
  show "dom ?fs = dom fs \<union> entry_path ?d ` bank"
    by (simp only: dom_fold_write set_bank_list)
qed

subsection \<open>The loudest level\<close>

lemma ten_powr_minus_03_pow: "(10 powr (- 6 / 20 :: real)) ^ 10 = 1 / 1000"
proof -
  have "(10 powr (- 6 / 20 :: real)) ^ 10 = (10 powr (- 6 / 20 :: real)) powr (real 10)"
    by (rule powr_realpow [symmetric]) simp
  also have "\<dots> = 10 powr ((- 6 / 20) * real 10)"
    by (rule powr_powr)
  also have "\<dots> = 10 powr (- 3)"
    by simp
  also have "\<dots> = inverse (10 powr 3)"
    by (rule powr_minus)
  also have "(10 :: real) powr 3 = 10 ^ 3"
    using powr_realpow [of "10 :: real" 3] by simp
  finally show ?thesis
    by simp
qed

lemma loudest_amplitude: "10 powr (- 6 / 20 :: real) \<le> 16423 / 32767"
proof (rule power_le_imp_le_base [of _ 9])
  have ten: "Suc 9 = 10"
    by simp
  have "(1 / 1000 :: real) \<le> (16423 / 32767) ^ 10"
    by (simp add: power_divide)
  then show "(10 powr (- 6 / 20 :: real)) ^ Suc 9 \<le> (16423 / 32767) ^ Suc 9"
    by (simp only: ten ten_powr_minus_03_pow)
  show "(0 :: real) \<le> 16423 / 32767"
    by simp
qed

lemma loudest_amplitude_approx:
  shows "5011 / 10000 < 10 powr (- 6 / 20 :: real)"
    and "10 powr (- 6 / 20 :: real) < 5012 / 10000"
proof -
  have "(5011 / 10000 :: real) ^ 10 < 1 / 1000"
    by (simp add: power_divide)
  then have "(5011 / 10000 :: real) ^ 10 < (10 powr (- 6 / 20 :: real)) ^ 10"
    by (simp only: ten_powr_minus_03_pow)
  then show "5011 / 10000 < 10 powr (- 6 / 20 :: real)"
    by (rule power_less_imp_less_base) simp
  have "(1 / 1000 :: real) < (5012 / 10000) ^ 10"
    by (simp add: power_divide)
  then have "(10 powr (- 6 / 20 :: real)) ^ 10 < (5012 / 10000 :: real) ^ 10"
    by (simp only: ten_powr_minus_03_pow)
  then show "10 powr (- 6 / 20 :: real) < 5012 / 10000"
    by (rule power_less_imp_less_base) simp
qed

lemma driver_amplitude:
  assumes "v < 8"
  shows "0 < amplitude_spec (db_level v)"
    and "amplitude_spec (db_level v) \<le> 10 powr (- 6 / 20)"
proof -
  show "0 < amplitude_spec (db_level v)"
    by (simp add: amplitude_spec_def)
  from db_level_range [OF assms] have "db_level v / 20 \<le> - 6 / 20"
    by simp
  then show "amplitude_spec (db_level v) \<le> 10 powr (- 6 / 20)"
    unfolding amplitude_spec_def by (rule powr_mono) simp
qed

lemma quiet_sample_bound:
  assumes "0 \<le> a" and "a \<le> 16423 / 32767"
  shows "\<bar>a * sin (\<theta> :: real) * 32767\<bar> \<le> 16423"
proof -
  have "\<bar>a * sin \<theta>\<bar> = a * \<bar>sin \<theta>\<bar>"
    using assms(1) by (simp add: abs_mult)
  also have "\<dots> \<le> a * 1"
    using assms(1) by (intro mult_left_mono) simp_all
  finally have "\<bar>a * sin \<theta>\<bar> \<le> 16423 / 32767"
    using assms(2) by simp
  then have "\<bar>a * sin \<theta>\<bar> * 32767 \<le> 16423"
    by simp
  then show ?thesis
    by (simp add: abs_mult)
qed

lemma set_stereo_wave: "set (stereo_wave xs) = set xs"
  by (induction xs) (auto simp: stereo_wave_def)

lemma quiet_wave:
  assumes "0 \<le> a" and "a \<le> 16423 / 32767"
  shows "\<forall>x \<in> set (stereo_wave (sine_wave_int native (sine_wave a f t))). \<bar>sint x\<bar> \<le> 16423"
    and "sine_wave_int native (sine_wave a f t) = sine_wave_int native' (sine_wave a f t)"
proof -
  have range: "\<bar>a * sin \<theta> * 32767\<bar> \<le> 32767" for \<theta>
    using quiet_sample_bound [OF assms, of \<theta>] by linarith
  have small: "\<bar>sint (np_int16 native (a * sin \<theta> * 32767))\<bar> \<le> 16423" for \<theta>
  proof -
    have "\<bar>a * sin \<theta> * 32767\<bar> \<le> real_of_int 16423"
      using quiet_sample_bound [OF assms, of \<theta>] by simp
    then have "\<bar>trunc (a * sin \<theta> * 32767)\<bar> \<le> 16423"
      by (rule trunc_bounds)
    then show ?thesis
      by (simp only: np_int16_in_range(2) [OF range])
  qed
  have "set (stereo_wave (sine_wave_int native (sine_wave a f t)))
        = (\<lambda>x. np_int16 native (a * sin (2 * pi * f * x) * 32767)) ` set t"
    by (simp add: set_stereo_wave sine_wave_int_def sine_wave_def image_image)
  then show "\<forall>x \<in> set (stereo_wave (sine_wave_int native (sine_wave a f t))). \<bar>sint x\<bar> \<le> 16423"
    by (simp only: ball_simps small simp_thms) simp
  have "np_int16 native (a * sin \<theta> * 32767) = np_int16 native' (a * sin \<theta> * 32767)" for \<theta>
    by (simp only: np_int16_in_range(1) [OF range])
  then show "sine_wave_int native (sine_wave a f t) = sine_wave_int native' (sine_wave a f t)"
    by (simp add: sine_wave_int_def sine_wave_def)
qed

lemma tone_bank:
  assumes "e \<in> bank" and "e = (n, v, r)"
  shows "generate_sine_wave native r 5 (frequency_spec n) (amplitude_spec (db_level v))
           = Inr (tone native n v r)"
    and "\<forall>x \<in> set (tone native n v r). \<bar>sint x\<bar> \<le> 16423"
    and "tone native n v r = tone native' n v r"
    and "int (length (tone native n v r)) = 10 * r"
proof -
  from assms have v: "v < 8" and r: "r = 44100 \<or> r = 48000"
    by (simp_all add: bank_def)
  let ?f = "frequency_spec n" and ?a = "amplitude_spec (db_level v)"
  from driver_amplitude [OF v] loudest_amplitude
  have a: "0 \<le> ?a" "?a \<le> 16423 / 32767"
    by linarith+
  from driver_rate(2) [OF r] obtain data
    where data: "generate_sine_wave native r 5 ?f ?a = Inr data"
    by blast
  then obtain t where t: "sample_times r 5 = Inr t"
    and eq: "data = stereo_wave (sine_wave_int native (sine_wave ?a ?f t))"
    by (auto simp: generate_sine_wave_Inr)
  from data have tone: "tone native n v r = data"
    by (simp add: tone_def)
  from data tone show "generate_sine_wave native r 5 ?f ?a = Inr (tone native n v r)"
    by simp
  from quiet_wave(1) [OF a] show "\<forall>x \<in> set (tone native n v r). \<bar>sint x\<bar> \<le> 16423"
    by (simp only: tone eq)
  have "generate_sine_wave native' r 5 ?f ?a
          = Inr (stereo_wave (sine_wave_int native' (sine_wave ?a ?f t)))"
    using t by (simp add: generate_sine_wave_def)
  then have "tone native' n v r = stereo_wave (sine_wave_int native' (sine_wave ?a ?f t))"
    by (simp add: tone_def)
  with quiet_wave(2) [OF a, of native ?f t native'] show "tone native n v r = tone native' n v r"
    by (simp only: tone eq)
  have "\<bar>r * 5\<bar> < 2 ^ 53"
    using r by auto
  then have "float_round (real_of_int (r * 5)) = real_of_int (r * 5)"
    by (rule float_round_int)
  then have exact: "float_round (real_of_int r * 5) = real_of_int (r * 5)"
    by simp
  have "int (length t) = trunc (float_round (real_of_int r * 5))"
    by (rule sample_times_Inr(1) [OF t])
  also have "\<dots> = trunc (real_of_int (r * 5))"
    by (simp only: exact)
  also have "\<dots> = 5 * r"
    unfolding trunc_def by (simp only: floor_of_int ceiling_of_int if_cancel mult.commute)
  finally show "int (length (tone native n v r)) = 10 * r"
    by (simp add: tone eq length_stereo_wave length_sine_wave_int length_sine_wave)
qed

subsection \<open>The full run\<close>

lemma entry_file_native:
  assumes "e \<in> bank"
  shows "entry_file native e = entry_file native' e"
proof -
  obtain n v r where e: "e = (n, v, r)"
    by (cases e) auto
  from tone_bank(3) [OF assms e, of native native'] show ?thesis
    by (simp add: e entry_file_def planned_file_def)
qed

text \<open>
  C5: the file name \<open>m{note:03d}-vel{tier}-f{rateTag}.wav\<close> is injective on the
  88 \<times> 8 \<times> 2 entries (notes 21 to 108, tiers 0 to 7, rates 44100 with tag 44 and 48000
  with tag 48); a full run on an empty output directory returns, and leaves exactly the files
  of all these entries (none skipped), 1408 of them, with 1408 different names; the name of
  (69, 7, 44100) is \<open>m069-vel7-f44.wav\<close>.
\<close>

theorem bank_file_names:
  "inj_on (\<lambda>(n, v, r). file_name n v r) bank
   \<and> card bank = 88 * 8 * 2
   \<and> (\<exists>fs'. main native arg system home Map.empty = Inr fs'
        \<and> dom fs' = entry_path (output_dir_of arg system home) ` bank
        \<and> card (dom fs') = 1408
        \<and> card (snd ` dom fs') = 1408)
   \<and> (\<forall>n v r. (n, v, r) \<in> bank \<longrightarrow>
         (\<exists>tag. rate_tags r = Some tag
            \<and> file_name n v r = ''m'' @ format_03d n @ ''-vel'' @ str_nat v @ ''-f'' @ tag @ ''.wav''))
   \<and> rate_tags 44100 = Some ''44'' \<and> rate_tags 48000 = Some ''48''
   \<and> file_name 69 7 44100 = ''m069-vel7-f44.wav''"
proof -
  let ?d = "output_dir_of arg system home"
  from main_files [of native arg system home Map.empty]
  obtain fs' where run: "main native arg system home Map.empty = Inr fs'"
    and dom: "dom fs' = dom (Map.empty :: files) \<union> entry_path ?d ` bank"
    by blast
  from dom have dom': "dom fs' = entry_path ?d ` bank"
    by simp
  have "card (entry_path ?d ` bank) = card bank"
    using entry_path_inj_on by (rule card_image)
  then have c1: "card (dom fs') = 1408"
    by (simp only: dom' card_bank)
  have "snd ` dom fs' = (\<lambda>(n, v, r). file_name n v r) ` bank"
    unfolding dom' by (force simp: entry_path_def image_iff)
  moreover have "card ((\<lambda>(n, v, r). file_name n v r) ` bank) = card bank"
    using file_name_inj_on by (rule card_image)
  ultimately have c2: "card (snd ` dom fs') = 1408"
    by (simp only: card_bank)
  have fmt: "\<exists>tag. rate_tags r = Some tag
            \<and> file_name n v r = ''m'' @ format_03d n @ ''-vel'' @ str_nat v @ ''-f'' @ tag @ ''.wav''"
    if "(n, v, r) \<in> bank" for n v r
  proof -
    from that have "r = 44100 \<or> r = 48000"
      by (simp add: bank_def)
    then obtain tag where tag: "rate_tags r = Some tag"
      using rate_tags_driver by blast
    then show ?thesis
      by (simp add: file_name_def filename_of_def note_str_of_def)
  qed
  from run dom' c1 c2 have "\<exists>fs'. main native arg system home Map.empty = Inr fs'
        \<and> dom fs' = entry_path ?d ` bank \<and> card (dom fs') = 1408 \<and> card (snd ` dom fs') = 1408"
    by blast
  moreover have "card bank = 88 * 8 * 2"
    by (simp add: card_bank)
  moreover note file_name_inj_on rate_tags_44100 rate_tags_48000 file_name_example
  moreover from fmt have "\<forall>n v r. (n, v, r) \<in> bank \<longrightarrow>
         (\<exists>tag. rate_tags r = Some tag
            \<and> file_name n v r = ''m'' @ format_03d n @ ''-vel'' @ str_nat v @ ''-f'' @ tag @ ''.wav'')"
    by blast
  ultimately show ?thesis
    by (intro conjI)
qed

theorem bank_file_names_witness:
  "(21, 0, 48000) \<in> bank \<and> (108, 7, 44100) \<in> bank
   \<and> file_name 21 0 48000 \<noteq> file_name 108 7 44100
   \<and> file_name 21 0 48000 = ''m021-vel0-f48.wav''"
proof -
  have a: "(21, 0, 48000) \<in> bank" and b: "(108, 7, 44100) \<in> bank"
    by (simp_all add: bank_def)
  note th = bank_file_names [of wrap_cast None "''Linux''" None]
  from th have inj: "inj_on (\<lambda>(n, v, r). file_name n v r) bank"
    by (rule conjunct1)
  have ne: "file_name 21 0 48000 \<noteq> file_name 108 7 44100"
  proof
    assume "file_name 21 0 48000 = file_name 108 7 44100"
    then have "(case (21, 0, 48000) of (n, v, r) \<Rightarrow> file_name n v r)
             = (case (108, 7, 44100) of (n, v, r) \<Rightarrow> file_name n v r)"
      by simp
    with inj have "(21 :: int, 0 :: nat, 48000 :: int) = (108, 7, 44100)"
      using a b by (rule inj_onD)
    then show False
      by simp
  qed
  from th a obtain tag where "rate_tags 48000 = Some tag"
    and f: "file_name 21 0 48000 = ''m'' @ format_03d 21 @ ''-vel'' @ str_nat 0 @ ''-f'' @ tag @ ''.wav''"
    by blast
  moreover from th have "rate_tags 48000 = Some ''48''"
    by blast
  ultimately have "tag = ''48''"
    by simp
  moreover have "format_03d 21 = ''021''"
    by (simp add: format_03d_digits digit_char_def)
  moreover have "str_nat 0 = ''0''"
    by (simp add: str_nat_digit digit_char_def)
  ultimately have "file_name 21 0 48000 = ''m021-vel0-f48.wav''"
    using f by simp
  with a b ne show ?thesis
    by simp
qed

text \<open>
  C7: the generator is deterministic. Two runs with the same arguments return, and for every
  (note, tier, rate) they leave the same file, whatever the output directory held before each
  run and whatever the platform does with values outside \<open>int16\<close> (the driver produces none);
  that file is a function of the entry alone. A run touches no other path, and running again
  on its own result changes nothing.
\<close>

theorem main_deterministic:
  "\<exists>fs1' fs2'.
      main native1 arg system home fs1 = Inr fs1'
    \<and> main native2 arg system home fs2 = Inr fs2'
    \<and> (\<forall>e. e \<in> bank \<longrightarrow>
          fs1' (entry_path (output_dir_of arg system home) e) = Some (entry_file native1 e)
        \<and> fs2' (entry_path (output_dir_of arg system home) e)
            = fs1' (entry_path (output_dir_of arg system home) e))
    \<and> (\<forall>p. p \<notin> entry_path (output_dir_of arg system home) ` bank \<longrightarrow> fs1' p = fs1 p)
    \<and> main native2 arg system home fs1' = Inr fs1'"
proof -
  let ?d = "output_dir_of arg system home"
  from main_files [of native1 arg system home fs1]
  obtain fs1' where r1: "main native1 arg system home fs1 = Inr fs1'"
    and h1: "\<And>e. e \<in> bank \<Longrightarrow> fs1' (entry_path ?d e) = Some (entry_file native1 e)"
    and o1: "\<And>p. p \<notin> entry_path ?d ` bank \<Longrightarrow> fs1' p = fs1 p"
    and d1: "dom fs1' = dom fs1 \<union> entry_path ?d ` bank"
    by blast
  from main_files [of native2 arg system home fs2]
  obtain fs2' where r2: "main native2 arg system home fs2 = Inr fs2'"
    and h2: "\<And>e. e \<in> bank \<Longrightarrow> fs2' (entry_path ?d e) = Some (entry_file native2 e)"
    and o2: "\<And>p. p \<notin> entry_path ?d ` bank \<Longrightarrow> fs2' p = fs2 p"
    and d2: "dom fs2' = dom fs2 \<union> entry_path ?d ` bank"
    by blast
  from main_files [of native2 arg system home fs1']
  obtain fs3 where r3: "main native2 arg system home fs1' = Inr fs3"
    and h3: "\<And>e. e \<in> bank \<Longrightarrow> fs3 (entry_path ?d e) = Some (entry_file native2 e)"
    and o3: "\<And>p. p \<notin> entry_path ?d ` bank \<Longrightarrow> fs3 p = fs1' p"
    and d3: "dom fs3 = dom fs1' \<union> entry_path ?d ` bank"
    by blast
  have "fs3 p = fs1' p" for p
  proof (cases "p \<in> entry_path ?d ` bank")
    case True
    then obtain e where e: "e \<in> bank" and p: "p = entry_path ?d e"
      by blast
    from h3 [OF e] h1 [OF e] entry_file_native [OF e, of native1 native2] show ?thesis
      by (simp add: p)
  next
    case False
    then show ?thesis
      by (rule o3)
  qed
  then have "fs3 = fs1'"
    by (rule ext)
  with r3 have again: "main native2 arg system home fs1' = Inr fs1'"
    by simp
  have same: "fs2' (entry_path ?d e) = fs1' (entry_path ?d e)" if "e \<in> bank" for e
    using h1 [OF that] h2 [OF that] entry_file_native [OF that, of native1 native2] by simp
  from r1 r2 h1 same o1 again show ?thesis
    by blast
qed

theorem main_deterministic_witness:
  "\<exists>fs1' fs2'.
      main wrap_cast None ''Linux'' (Some ''/home/u'') Map.empty = Inr fs1'
    \<and> main wrap_cast None ''Linux'' (Some ''/home/u'')
         [(''/tmp'', ''m069-vel7-f44.wav'') \<mapsto>
            \<lparr>nchannels = 1, sampwidth = 1, framerate = 8000, frames = []\<rparr>] = Inr fs2'
    \<and> fs2' (entry_path (output_dir_of None ''Linux'' (Some ''/home/u'')) (69, 7, 44100))
        = fs1' (entry_path (output_dir_of None ''Linux'' (Some ''/home/u'')) (69, 7, 44100))
    \<and> fs1' (entry_path (output_dir_of None ''Linux'' (Some ''/home/u'')) (69, 7, 44100)) \<noteq> None
    \<and> main wrap_cast None ''Linux'' (Some ''/home/u'') fs1' = Inr fs1'"
proof -
  have "(69, 7, 44100) \<in> bank"
    by (simp add: bank_def)
  with main_deterministic [of wrap_cast None "''Linux''" "Some ''/home/u''" Map.empty wrap_cast
      "[(''/tmp'', ''m069-vel7-f44.wav'') \<mapsto>
            \<lparr>nchannels = 1, sampwidth = 1, framerate = 8000, frames = []\<rparr>]"]
  show ?thesis
    by fastforce
qed

text \<open>
  C10: in the full run every call of the synthesiser has the amplitude \<open>amplitude(db)\<close> of one
  of the eight evenly spaced levels \<open>-30 + vel * 24/7\<close> between -30 and -6 dB, so every
  amplitude is at most \<open>10^(-6/20)\<close>, which lies between 0.5011 and 0.5012, and every
  \<open>int16\<close> sample written to the file of an entry has magnitude at most 16423: no value
  reaches the bounds of \<open>int16\<close>.
\<close>

theorem driver_sample_bound:
  assumes "(n, v, r) \<in> bank"
  shows "np_linspace (- 30) (- 6) 8 True = Inr (map db_level [0..<8])
    \<and> db_level v = - 30 + real v * (24 / 7)
    \<and> - 30 \<le> db_level v \<and> db_level v \<le> - 6
    \<and> db_to_amp (db_level v) = Inr (amplitude_spec (db_level v))
    \<and> amplitude_spec (db_level v) \<le> 10 powr (- 6 / 20)
    \<and> 5011 / 10000 < 10 powr (- 6 / 20 :: real) \<and> 10 powr (- 6 / 20 :: real) < 5012 / 10000
    \<and> generate_sine_wave native r 5 (frequency_spec n) (amplitude_spec (db_level v))
        = Inr (tone native n v r)
    \<and> int (length (tone native n v r)) = 10 * r
    \<and> (\<forall>x \<in> set (tone native n v r). \<bar>sint x\<bar> \<le> 16423)
    \<and> (\<exists>fs'. main native arg system home fs = Inr fs'
          \<and> fs' (output_dir_of arg system home, file_name n v r)
              = Some \<lparr>nchannels = 2, sampwidth = 2, framerate = r,
                      frames = concat (map struct_pack_h (tone native n v r))\<rparr>)"
proof -
  from assms have v: "v < 8"
    by (simp add: bank_def)
  from main_files [of native arg system home fs]
  obtain fs' where run: "main native arg system home fs = Inr fs'"
    and hit: "\<And>e. e \<in> bank \<Longrightarrow>
      fs' (entry_path (output_dir_of arg system home) e) = Some (entry_file native e)"
    and other: "\<And>p. p \<notin> entry_path (output_dir_of arg system home) ` bank \<Longrightarrow> fs' p = fs p"
    and dom: "dom fs' = dom fs \<union> entry_path (output_dir_of arg system home) ` bank"
    by blast
  from hit [OF assms] have "fs' (output_dir_of arg system home, file_name n v r)
              = Some \<lparr>nchannels = 2, sampwidth = 2, framerate = r,
                      frames = concat (map struct_pack_h (tone native n v r))\<rparr>"
    by (simp add: entry_path_def entry_file_def planned_file_def)
  with run have "\<exists>fs'. main native arg system home fs = Inr fs'
          \<and> fs' (output_dir_of arg system home, file_name n v r)
              = Some \<lparr>nchannels = 2, sampwidth = 2, framerate = r,
                      frames = concat (map struct_pack_h (tone native n v r))\<rparr>"
    by blast
  moreover note db_levels_run db_level_range [OF v] db_to_amp_level [OF v]
    driver_amplitude(2) [OF v] loudest_amplitude_approx(1) loudest_amplitude_approx(2)
    tone_bank(1,2,4) [OF assms refl, of native]
  moreover have "db_level v = - 30 + real v * (24 / 7)"
    by (simp add: db_level_def)
  ultimately show ?thesis
    by blast
qed

theorem driver_sample_bound_witness:
  "(69, 7, 44100) \<in> bank
   \<and> db_level 7 = - 6
   \<and> db_to_amp (- 6) = Inr (amplitude_spec (- 6))
   \<and> generate_sine_wave wrap_cast 44100 5 (frequency_spec 69) (amplitude_spec (- 6))
       = Inr (tone wrap_cast 69 7 44100)
   \<and> length (tone wrap_cast 69 7 44100) = 441000
   \<and> \<bar>sint (tone wrap_cast 69 7 44100 ! 1)\<bar> \<le> 16423"
proof -
  have b: "(69, 7, 44100) \<in> bank"
    by (simp add: bank_def)
  have l: "db_level 7 = - 6"
    by (simp add: db_level_def)
  note th = driver_sample_bound [OF b, of wrap_cast None "''Linux''" None Map.empty]
  from th have len: "int (length (tone wrap_cast 69 7 44100)) = 10 * 44100"
    by blast
  then have len': "length (tone wrap_cast 69 7 44100) = 441000"
    by simp
  then have "tone wrap_cast 69 7 44100 ! 1 \<in> set (tone wrap_cast 69 7 44100)"
    by (intro nth_mem) simp
  moreover from th have "\<forall>x \<in> set (tone wrap_cast 69 7 44100). \<bar>sint x\<bar> \<le> 16423"
    by blast
  ultimately have "\<bar>sint (tone wrap_cast 69 7 44100 ! 1)\<bar> \<le> 16423"
    by blast
  moreover from th have "db_to_amp (db_level 7) = Inr (amplitude_spec (db_level 7))"
    and "generate_sine_wave wrap_cast 44100 5 (frequency_spec 69) (amplitude_spec (db_level 7))
        = Inr (tone wrap_cast 69 7 44100)"
    by blast+
  ultimately show ?thesis
    using b l len' by (simp only: simp_thms)
qed

subsection \<open>The default output directory\<close>

lemma expanduser_home:
  "expanduser (Some h) ''~/Soundbank/IthacaPlayer/instrument''
   = rstrip_slash h @ ''/Soundbank/IthacaPlayer/instrument''"
  by (simp add: expanduser_def Let_def)

lemma expanduser_no_home:
  "expanduser None ''~/Soundbank/IthacaPlayer/instrument'' = ''~/Soundbank/IthacaPlayer/instrument''"
  by (simp add: expanduser_def Let_def)

lemma windows_components:
  "path_components backslash (get_default_output_dir ''Windows'' home)
   = [''C:'', ''SoundBanks'', ''IthacaPlayer'', ''instrument'']"
  by (simp add: path_components_def get_default_output_dir_def backslash_def)

text \<open>
  C8: without \<open>--output-dir\<close> the output directory is, on Windows, the literal of the source,
  whose components are \<open>C:\<close>, \<open>SoundBanks\<close>, \<open>IthacaPlayer\<close>, \<open>instrument\<close>, and on any other
  platform \<open>~/Soundbank/IthacaPlayer/instrument\<close> expanded by \<open>expanduser\<close>: the home
  directory without its trailing slashes, followed by \<open>/Soundbank/IthacaPlayer/instrument\<close>.
  The run writes its new files into that directory.
\<close>

theorem default_output_dir:
  "output_dir_of None system home = get_default_output_dir system home
   \<and> get_default_output_dir ''Windows'' home
       = ''C:'' @ [backslash, backslash] @ ''SoundBanks'' @ [backslash, backslash]
         @ ''IthacaPlayer'' @ [backslash, backslash] @ ''instrument''
   \<and> path_components backslash (get_default_output_dir ''Windows'' home)
       = [''C:'', ''SoundBanks'', ''IthacaPlayer'', ''instrument'']
   \<and> (system \<noteq> ''Windows'' \<longrightarrow>
         get_default_output_dir system home
           = expanduser home ''~/Soundbank/IthacaPlayer/instrument''
       \<and> get_default_output_dir system (Some h)
           = rstrip_slash h @ ''/Soundbank/IthacaPlayer/instrument'')
   \<and> (\<exists>fs'. main native None system home fs = Inr fs'
         \<and> (\<forall>p. p \<in> dom fs' \<and> p \<notin> dom fs \<longrightarrow> fst p = get_default_output_dir system home))"
proof -
  have dir: "output_dir_of None system home = get_default_output_dir system home"
    by (simp add: output_dir_of_def)
  from main_files [of native None system home fs]
  obtain fs' where run: "main native None system home fs = Inr fs'"
    and dom: "dom fs' = dom fs \<union> entry_path (output_dir_of None system home) ` bank"
    by blast
  have "fst p = get_default_output_dir system home" if "p \<in> dom fs' \<and> p \<notin> dom fs" for p
  proof -
    from that dom obtain e where "p = entry_path (output_dir_of None system home) e"
      by blast
    then show ?thesis
      by (cases e) (simp add: entry_path_def dir)
  qed
  with run have "\<exists>fs'. main native None system home fs = Inr fs'
         \<and> (\<forall>p. p \<in> dom fs' \<and> p \<notin> dom fs \<longrightarrow> fst p = get_default_output_dir system home)"
    by blast
  moreover have "get_default_output_dir ''Windows'' home
       = ''C:'' @ [backslash, backslash] @ ''SoundBanks'' @ [backslash, backslash]
         @ ''IthacaPlayer'' @ [backslash, backslash] @ ''instrument''"
    by (simp add: get_default_output_dir_def)
  moreover have "system \<noteq> ''Windows'' \<longrightarrow>
         get_default_output_dir system home
           = expanduser home ''~/Soundbank/IthacaPlayer/instrument''
       \<and> get_default_output_dir system (Some h)
           = rstrip_slash h @ ''/Soundbank/IthacaPlayer/instrument''"
    by (simp add: get_default_output_dir_def expanduser_home)
  moreover note dir windows_components
  ultimately show ?thesis
    by blast
qed

theorem default_output_dir_witness:
  "output_dir_of None ''Linux'' (Some ''/home/u/'') = ''/home/u/Soundbank/IthacaPlayer/instrument''
   \<and> path_components backslash (output_dir_of None ''Windows'' (Some ''/home/u/''))
       = [''C:'', ''SoundBanks'', ''IthacaPlayer'', ''instrument'']"
proof -
  have ne: "''Linux'' \<noteq> ''Windows''"
    by simp
  have strip: "rstrip_slash ''/home/u/'' = ''/home/u''"
    by (simp add: rstrip_slash_def)
  note lin = default_output_dir [of "''Linux''" "Some ''/home/u/''" "''/home/u/''" wrap_cast Map.empty]
  note win = default_output_dir [of "''Windows''" "Some ''/home/u/''" "''/home/u/''" wrap_cast Map.empty]
  from lin ne have "output_dir_of None ''Linux'' (Some ''/home/u/'')
      = rstrip_slash ''/home/u/'' @ ''/Soundbank/IthacaPlayer/instrument''"
    by metis
  then have a: "output_dir_of None ''Linux'' (Some ''/home/u/'')
      = ''/home/u/Soundbank/IthacaPlayer/instrument''"
    by (simp only: strip) simp
  from win have "path_components backslash (output_dir_of None ''Windows'' (Some ''/home/u/''))
       = [''C:'', ''SoundBanks'', ''IthacaPlayer'', ''instrument'']"
    by metis
  with a show ?thesis
    by (rule conjI)
qed

end
